theory Spec2Isabelle
  imports Complex_Main "HOL-Library.Word" "HOL-Library.Multiset" "HOL-Library.Monad_Syntax"
begin

unbundle bit_operations_syntax

section \<open>Numbers\<close>

text \<open>
  The TypeScript sources compute with \<open>number\<close>, the binary64 format. In the builders
  of the schedules, the forward sample, the normal sampler and the density estimate a
  \<open>number\<close> that holds a finite value is modelled as a \<^typ>\<open>real\<close> and the
  arithmetic on it is exact: the statements proved about them are bounds and
  equations of the formulas, and the rounding of each operation is not part of them.
  The interpolation between schedule points is stated with the rounding of binary64
  (\<open>fl\<close> below), because its specification asks for exact equality.
  A result that is not a finite number (\<open>NaN\<close> from \<open>Math.sqrt\<close> of a negative
  argument or from arithmetic on \<open>undefined\<close>, \<open>-Infinity\<close> from \<open>Math.log(0)\<close>) is
  \<^term>\<open>None\<close>. Array lengths, loop counters and step counts are \<^typ>\<open>nat\<close> or
  \<^typ>\<open>int\<close>.
\<close>

text \<open>
  Rounding to the nearest integer, a tie going to the even one, and the binary64 number
  nearest to a real: 53 significant bits, the unit of the last place being
  \<open>2\<^sup>e\<^sup>-\<^sup>5\<^sup>2\<close> for \<open>2\<^sup>e \<le> |x| < 2\<^sup>e\<^sup>+\<^sup>1\<close> and \<open>2\<^sup>-\<^sup>1\<^sup>0\<^sup>7\<^sup>4\<close> below \<open>2\<^sup>-\<^sup>1\<^sup>0\<^sup>2\<^sup>2\<close>
  (gradual underflow). A result of magnitude \<open>2\<^sup>1\<^sup>0\<^sup>2\<^sup>4\<close> or more, \<open>Infinity\<close> in the
  program, is not modelled.
\<close>

definition rne :: "real \<Rightarrow> int" where
  "rne x =
     (let f = \<lfloor>x\<rfloor>; r = x - of_int f
      in if r < 1 / 2 then f else if 1 / 2 < r then f + 1 else if even f then f else f + 1)"

definition fl :: "real \<Rightarrow> real" where
  "fl x =
     (if x = 0 then 0
      else let e = max (- 1022) \<lfloor>log 2 \<bar>x\<bar>\<rfloor>;
               u = 2 powr (of_int e - 52)
           in of_int (rne (x / u)) * u)"

definition js_sqrt :: "real \<Rightarrow> real option" where
  "js_sqrt x = (if 0 \<le> x then Some (sqrt x) else None)"

definition js_log :: "real \<Rightarrow> real option" where
  "js_log x = (if 0 < x then Some (ln x) else None)"

text \<open>Reading \<open>xs[i]\<close>: past either end of the array the read gives \<open>undefined\<close>.\<close>

definition at_index :: "real list \<Rightarrow> int \<Rightarrow> real option" where
  "at_index xs i = (if 0 \<le> i \<and> i < int (length xs) then Some (xs ! nat i) else None)"

section \<open>Schedulers (the image forward composition)\<close>

text \<open>
  The three product schedules end in the same loop
  \<^verbatim>\<open>let acc = 1; for (const b of betas) { const a = 1 - b; acc *= a; out.push(acc); }\<close>
\<close>

fun accumulate :: "real \<Rightarrow> real list \<Rightarrow> real list \<Rightarrow> real list" where
  "accumulate acc out [] = out"
| "accumulate acc out (b # betas) =
     (let a = 1 - b; acc' = acc * a in accumulate acc' (out @ [acc']) betas)"

text \<open>
  In each of them the constant \<open>betas\<close> is an array of \<open>T\<close> values; it is a
  definition of its own here, named after its builder.
\<close>

definition betasLinear :: "nat \<Rightarrow> real list" where
  "betasLinear T =
     (let betaStart = 0.0001; betaEnd = 0.2
      in map (\<lambda>i. min 0.999
                (betaStart + (real i / max 1 (real T - 1)) * (betaEnd - betaStart)))
           [0..<T])"

definition makeAlphaBarLinear :: "nat \<Rightarrow> real list" where
  "makeAlphaBarLinear T = (let betas = betasLinear T in accumulate 1 [] betas)"

text \<open>
  The cosine schedule pushes \<open>f(i) / f0\<close> for \<open>i = 0, \<dots>, T - 1\<close>;
  \<open>Math.pow(c, 2)\<close> is the square.
\<close>

definition makeAlphaBarCosine :: "nat \<Rightarrow> real list" where
  "makeAlphaBarCosine T =
     (let s = 0.008;
          f = (\<lambda>t. (cos (((t / real T + s) / (1 + s)) * (pi / 2))) ^ 2);
          f0 = f 0
      in map (\<lambda>i. f (real i) / f0) [0..<T])"

text \<open>The argument of the cosine in \<open>f\<close>, for the statements about this schedule.\<close>

definition cosine_angle :: "nat \<Rightarrow> real \<Rightarrow> real" where
  "cosine_angle T t = ((t / real T + 0.008) / (1 + 0.008)) * (pi / 2)"

definition betasQuadratic :: "nat \<Rightarrow> real list" where
  "betasQuadratic T =
     (let betaMin = 0.0001; betaMax = 0.35
      in map (\<lambda>i. let r = real i / max 1 (real T - 1)
                   in min 0.999 (betaMin + r * r * (betaMax - betaMin)))
           [0..<T])"

definition makeAlphaBarQuadratic :: "nat \<Rightarrow> real list" where
  "makeAlphaBarQuadratic T = (let betas = betasQuadratic T in accumulate 1 [] betas)"

definition betasSigmoid :: "nat \<Rightarrow> real list" where
  "betasSigmoid T =
     (let betaMin = 0.0001; betaMax = 0.3; k = 8
      in map (\<lambda>i. let x = real i / max 1 (real T - 1);
                       sig = 1 / (1 + exp (- (x - 0.5) * k));
                       b = betaMin + sig * (betaMax - betaMin)
                   in min 0.999 b)
           [0..<T])"

definition makeAlphaBarSigmoid :: "nat \<Rightarrow> real list" where
  "makeAlphaBarSigmoid T = (let betas = betasSigmoid T in accumulate 1 [] betas)"

text \<open>The table of schedulers; the field \<open>id\<close> of the source is \<open>sid\<close> here.\<close>

record scheduler_def =
  sid :: string
  label :: string
  builder :: "nat \<Rightarrow> real list"

definition ALL_SCHEDULERS :: "scheduler_def list" where
  "ALL_SCHEDULERS =
     [\<lparr>sid = ''linear'', label = ''Linear'', builder = makeAlphaBarLinear\<rparr>,
      \<lparr>sid = ''cosine'', label = ''Cosine'', builder = makeAlphaBarCosine\<rparr>,
      \<lparr>sid = ''quadratic'', label = ''Quadratic'', builder = makeAlphaBarQuadratic\<rparr>,
      \<lparr>sid = ''sigmoid'', label = ''Sigmoid'', builder = makeAlphaBarSigmoid\<rparr>]"

text \<open>
  The selected schedule:
  \<^verbatim>\<open>const found = ALL_SCHEDULERS.find((s) => s.id === scheduler);
  if (!found) return makeAlphaBarLinear(Math.max(2, steps));
  return found.builder(Math.max(2, steps));\<close>
\<close>

definition alphaBar :: "string \<Rightarrow> int \<Rightarrow> real list" where
  "alphaBar scheduler steps =
     (case find (\<lambda>s. sid s = scheduler) ALL_SCHEDULERS of
        None \<Rightarrow> makeAlphaBarLinear (nat (max 2 steps))
      | Some found \<Rightarrow> builder found (nat (max 2 steps)))"

text \<open>
  What the specification asks of a schedule for \<open>n\<close> steps: \<open>n\<close> values, each in
  \<open>(0, 1]\<close>, and no value larger than the one before it.
\<close>

definition schedule_ok :: "real list \<Rightarrow> nat \<Rightarrow> bool" where
  "schedule_ok sched n \<longleftrightarrow>
     length sched = n \<and>
     (\<forall>t<n. 0 < sched ! t \<and> sched ! t \<le> 1) \<and>
     (\<forall>t. Suc t < n \<longrightarrow> sched ! Suc t \<le> sched ! t)"

section \<open>Interpolation and the forward sample\<close>




text \<open>
  \<^verbatim>\<open>const s1 = Math.sqrt(Math.max(1e-8, ab));
  const s2 = Math.sqrt(Math.max(0, 1 - ab));\<close>
\<close>

definition s1 :: "real \<Rightarrow> real option" where
  "s1 ab = js_sqrt (max 0.00000001 ab)"

definition s2 :: "real \<Rightarrow> real option" where
  "s2 ab = js_sqrt (max 0 (1 - ab))"

text \<open>One component, \<^verbatim>\<open>const xt = s1 * x0[i] + s2 * ex[i];\<close>\<close>

definition xt :: "real \<Rightarrow> real list \<Rightarrow> real list \<Rightarrow> nat \<Rightarrow> real option" where
  "xt ab x0 ex i =
     do { a \<leftarrow> s1 ab; b \<leftarrow> s2 ab; x \<leftarrow> at_index x0 (int i); e \<leftarrow> at_index ex (int i);
          Some (a * x + b * e) }"

text \<open>
  The loop over the points of the forward composition; each dot is kept with its index:
  \<^verbatim>\<open>const count = Math.min(visibleCount, x0.length);
  const stride = Math.max(1, Math.floor(x0.length / count));
  let written = 0;
  for (let i = 0; i < x0.length && written < count; i += stride, written++) {
    const xt = s1 * x0[i] + s2 * ex[i];
    const yt = s1 * y0[i] + s2 * ey[i];
    ... dots.push(...) }\<close>
  When \<open>count \<le> 0\<close> the body is never entered, so the value of \<open>stride\<close>
  (\<open>NaN\<close>, \<open>Infinity\<close> or 1 in the source) plays no part there. The variable
  \<open>count\<close> is \<open>cnt\<close> here.
\<close>

function dots_loop ::
  "real \<Rightarrow> real list \<Rightarrow> real list \<Rightarrow> real list \<Rightarrow> real list \<Rightarrow> nat \<Rightarrow> int \<Rightarrow>
   nat \<Rightarrow> int \<Rightarrow> (nat \<times> real option \<times> real option) list \<Rightarrow>
   (nat \<times> real option \<times> real option) list" where
  "dots_loop ab x0 y0 ex ey stride cnt i written dots =
     (if i < length x0 \<and> written < cnt
      then dots_loop ab x0 y0 ex ey stride cnt (i + stride) (written + 1)
             (dots @ [(i, xt ab x0 ex i, xt ab y0 ey i)])
      else dots)"
  by pat_completeness auto
termination
  by (relation "measure (\<lambda>(ab, x0, y0, ex, ey, stride, cnt, i, written, dots).
        nat (cnt - written))") auto

definition forward_dots ::
  "real \<Rightarrow> real list \<Rightarrow> real list \<Rightarrow> real list \<Rightarrow> real list \<Rightarrow> int \<Rightarrow>
   (nat \<times> real option \<times> real option) list" where
  "forward_dots ab x0 y0 ex ey visibleCount =
     (let cnt = min visibleCount (int (length x0));
          stride = max 1 (nat \<lfloor>real (length x0) / real_of_int cnt\<rfloor>)
      in dots_loop ab x0 y0 ex ey stride cnt 0 0 [])"

section \<open>Random numbers\<close>

text \<open>
  \<^verbatim>\<open>const mulberry32 = (s) => () => {
    let t = (s += 0x6d2b79f5);
    t = Math.imul(t ^ (t >>> 15), t | 1);
    t ^= t + Math.imul(t ^ (t >>> 7), t | 61);
    return ((t ^ (t >>> 14)) >>> 0) / 4294967296; };\<close>
  The closure's variable \<open>s\<close> is the state, passed in and returned. It is an integer
  that grows without wrapping; the bitwise operators and \<open>Math.imul\<close> read it modulo
  \<open>2^32\<close>, and \<open>>>> 0\<close> reads the 32 bits as an unsigned integer. The sum
  \<open>s + 0x6d2b79f5\<close> is exact in the program as long as the state is below \<open>2^53\<close>;
  above, the program's state loses low bits and its draws differ from the ones here,
  still lying in \<open>[0, 1)\<close>.
\<close>

definition mulberry32 :: "int \<Rightarrow> real \<times> int" where
  "mulberry32 s =
     (let s' = s + 0x6d2b79f5;
          t = (word_of_int s' :: 32 word);
          t = (t XOR drop_bit 15 t) * (t OR 1);
          t = t XOR (t + (t XOR drop_bit 7 t) * (t OR 61))
      in (real_of_int (uint (t XOR drop_bit 14 t)) / 4294967296, s'))"

text \<open>
  \<^verbatim>\<open>while (u === 0) u = rng();\<close> with \<open>u\<close> starting at 0: draw until the value is
  not 0. The loop need not end, so it returns an option.
\<close>

partial_function (option) draw_nonzero :: "('s \<Rightarrow> real \<times> 's) \<Rightarrow> 's \<Rightarrow> (real \<times> 's) option" where
  "draw_nonzero rng s =
     (case rng s of (u, s') \<Rightarrow> if u = 0 then draw_nonzero rng s' else Some (u, s'))"

text \<open>
  \<^verbatim>\<open>const m = Math.sqrt(-2 * Math.log(u));
  return m * Math.cos(2 * Math.PI * v);\<close>
\<close>

definition box_muller :: "real \<Rightarrow> real \<Rightarrow> real option" where
  "box_muller u v =
     do { l \<leftarrow> js_log u; m \<leftarrow> js_sqrt (- 2 * l); Some (m * cos (2 * pi * v)) }"

definition randn :: "('s \<Rightarrow> real \<times> 's) \<Rightarrow> 's \<Rightarrow> (real option \<times> 's) option" where
  "randn rng s =
     do { (u, s') \<leftarrow> draw_nonzero rng s;
          (v, s'') \<leftarrow> draw_nonzero rng s';
          Some (box_muller u v, s'') }"

text \<open>The state after \<open>k\<close> calls of the generator and the value of call number \<open>k\<close>.\<close>

definition state_after :: "('s \<Rightarrow> real \<times> 's) \<Rightarrow> 's \<Rightarrow> nat \<Rightarrow> 's" where
  "state_after rng s k = ((\<lambda>x. snd (rng x)) ^^ k) s"

definition draw :: "('s \<Rightarrow> real \<times> 's) \<Rightarrow> 's \<Rightarrow> nat \<Rightarrow> real" where
  "draw rng s k = fst (rng (state_after rng s k))"

text \<open>
  A generator for examples: its state counts the calls, and the calls number 1 and 3
  return \<open>1/2\<close>, every other call returns 0.
\<close>

definition demo_rng :: "nat \<Rightarrow> real \<times> nat" where
  "demo_rng c = (if c = 1 \<or> c = 3 then 1 / 2 else 0, Suc c)"

section \<open>The seeded shuffle of the jigsaw puzzle\<close>

definition identity :: "nat \<Rightarrow> nat list" where
  "identity n = [0..<n * n]"

text \<open>
  \<^verbatim>\<open>for (let i = arr.length - 1; i > 0; i--) {
    const j = Math.floor(rnd() * (i + 1));
    [arr[i], arr[j]] = [arr[j], arr[i]]; }\<close>
\<close>

fun shuffle_loop :: "nat \<Rightarrow> int \<Rightarrow> nat list \<Rightarrow> nat list" where
  "shuffle_loop i seed arr =
     (if i > 0
      then (let (r, seed') = mulberry32 seed;
                j = nat \<lfloor>r * real (i + 1)\<rfloor>
            in shuffle_loop (i - 1) seed' (arr[i := arr ! j, j := arr ! i]))
      else arr)"

text \<open>
  \<^verbatim>\<open>if (arr.every((v, i) => v === i) && arr.length > 1) [arr[0], arr[1]] = [arr[1], arr[0]];\<close>
  The test \<open>every\<close> runs over the indices of \<open>arr\<close>.
\<close>

definition seededShuffle :: "nat \<Rightarrow> int \<Rightarrow> nat list" where
  "seededShuffle n seed =
     (let arr = shuffle_loop (length (identity n) - 1) seed (identity n)
      in if list_all (\<lambda>i. arr ! i = i) [0..<length arr] \<and> length arr > 1
         then arr[0 := arr ! 1, 1 := arr ! 0]
         else arr)"

section \<open>Kernel density estimate\<close>

text \<open>
  \<^verbatim>\<open>const kde = (data: Float32Array, grid: number[]) => {
    const n = data.length || 1;
    let mean = 0; for (let i = 0; i < n; i++) mean += data[i]; mean /= n;
    let v = 0; for (let i = 0; i < n; i++) { const d = data[i] - mean; v += d * d; }
    v = v / Math.max(1, n - 1);
    const std = Math.sqrt(Math.max(1e-6, v));
    const h = 1.06 * std * Math.pow(n, -1 / 5);
    const inv = 1 / (Math.sqrt(2 * Math.PI) * h * n);
    const ys = new Array(grid.length).fill(0);
    for (let j = 0; j < grid.length; j++) {
      const x = grid[j];
      let s = 0;
      for (let i = 0; i < n; i++) { const z = (x - data[i]) / h; s += Math.exp(-0.5 * z * z); }
      ys[j] = inv * s; }
    return ys; };\<close>
  For an empty \<open>data\<close> the source sets \<open>n = 1\<close> and reads \<open>data[0]\<close>, which is
  \<open>undefined\<close>: \<open>mean\<close>, \<open>v\<close>, \<open>std\<close>, \<open>h\<close> and \<open>inv\<close> are \<open>NaN\<close> and so is every
  \<open>ys[j]\<close>. Otherwise every read is inside the array.
\<close>

definition kde :: "real list \<Rightarrow> real list \<Rightarrow> real option list" where
  "kde data grid =
     (let n = (if length data = 0 then 1 else length data)
      in if data = [] then replicate (length grid) None
         else
          (let mean = fold (\<lambda>i mean. mean + data ! i) [0..<n] 0;
               mean = mean / real n;
               v = fold (\<lambda>i v. let d = data ! i - mean in v + d * d) [0..<n] 0;
               v = v / max 1 (real n - 1);
               std = sqrt (max 0.000001 v);
               h = 1.06 * std * real n powr (- 1 / 5);
               inv = 1 / (sqrt (2 * pi) * h * real n)
           in map (\<lambda>x. let s = fold (\<lambda>i s. let z = (x - data ! i) / h
                                             in s + exp (- 0.5 * z * z)) [0..<n] 0
                         in Some (inv * s))
                  grid))"

text \<open>
  The estimate in the words of the specification: Silverman's bandwidth
  \<open>h = 1.06 \<sigma> n\<^sup>-\<^sup>1\<^sup>/\<^sup>5\<close>, \<open>\<sigma>\<close> the sample standard deviation with denominator
  \<open>n - 1\<close>, the variance floored at \<open>10\<^sup>-\<^sup>6\<close> (also when \<open>n \<le> 1\<close>), and the density
  \<open>(1 / (\<surd>(2\<pi>) h n)) \<Sum>\<^sub>i exp (- 0.5 ((x - sample\<^sub>i) / h)\<^sup>2)\<close>.
\<close>

definition spec_mean :: "real list \<Rightarrow> real" where
  "spec_mean samples = sum_list samples / real (length samples)"

definition spec_variance :: "real list \<Rightarrow> real" where
  "spec_variance samples =
     (if length samples \<le> 1 then 0.000001
      else max 0.000001
             ((\<Sum>x\<leftarrow>samples. (x - spec_mean samples) ^ 2) / (real (length samples) - 1)))"

definition spec_bandwidth :: "real list \<Rightarrow> real" where
  "spec_bandwidth samples =
     1.06 * sqrt (spec_variance samples) * real (length samples) powr (- 1 / 5)"

definition spec_density :: "real list \<Rightarrow> real \<Rightarrow> real" where
  "spec_density samples x =
     (let h = spec_bandwidth samples; n = real (length samples)
      in (1 / (sqrt (2 * pi) * h * n)) * (\<Sum>s\<leftarrow>samples. exp (- 0.5 * ((x - s) / h) ^ 2)))"

text \<open>
  The component of the forward sample in the words of the specification:
  \<open>sqrt(max(ab, 1e-8)) \<cdot> x0[i] + sqrt(max(1 - ab, 0)) \<cdot> eps[i]\<close>.
\<close>

definition spec_forward :: "real \<Rightarrow> real \<Rightarrow> real \<Rightarrow> real" where
  "spec_forward ab x e = sqrt (max ab 0.00000001) * x + sqrt (max (1 - ab) 0) * e"

text \<open>Closeness of a computed value to a number, up to a tolerance.\<close>

definition close_to :: "real \<Rightarrow> real option \<Rightarrow> real \<Rightarrow> bool" where
  "close_to tol r x = (case r of None \<Rightarrow> False | Some v \<Rightarrow> \<bar>v - x\<bar> \<le> tol)"

section \<open>The fallback of the selected schedule\<close>

text \<open>
  Claim C6. For every step count, a scheduler name outside
  \<open>linear\<close>, \<open>cosine\<close>, \<open>quadratic\<close>, \<open>sigmoid\<close> finds nothing in the table, so the
  linear builder runs on \<open>max(2, steps)\<close>; the name \<open>linear\<close> selects that same
  builder, so both give exactly the same schedule.
\<close>

theorem alphaBar_unknown_is_linear:
  assumes "scheduler \<notin> {''linear'', ''cosine'', ''quadratic'', ''sigmoid''}"
  shows "alphaBar scheduler steps = makeAlphaBarLinear (nat (max 2 steps)) \<and>
         alphaBar ''linear'' steps = makeAlphaBarLinear (nat (max 2 steps)) \<and>
         alphaBar scheduler steps = alphaBar ''linear'' steps"
proof -
  have n: "''linear'' \<noteq> scheduler" "''cosine'' \<noteq> scheduler"
     "''quadratic'' \<noteq> scheduler" "''sigmoid'' \<noteq> scheduler"
    using assms by blast+
  have "find (\<lambda>s. sid s = scheduler) ALL_SCHEDULERS = None"
    unfolding ALL_SCHEDULERS_def using n by simp
  then have unknown: "alphaBar scheduler steps = makeAlphaBarLinear (nat (max 2 steps))"
    by (simp add: alphaBar_def)
  have "find (\<lambda>s. sid s = ''linear'') ALL_SCHEDULERS = Some (hd ALL_SCHEDULERS)"
    unfolding ALL_SCHEDULERS_def by simp
  then have linear: "alphaBar ''linear'' steps = makeAlphaBarLinear (nat (max 2 steps))"
    by (simp add: alphaBar_def ALL_SCHEDULERS_def)
  show ?thesis
    using unknown linear by (simp only:)
qed

theorem alphaBar_unknown_is_linear_witness:
  "''exponential'' \<notin> {''linear'', ''cosine'', ''quadratic'', ''sigmoid''} \<and>
   alphaBar ''exponential'' 50 = makeAlphaBarLinear 50 \<and>
   alphaBar ''linear'' 50 = makeAlphaBarLinear 50"
proof -
  have h: "''exponential'' \<notin> {''linear'', ''cosine'', ''quadratic'', ''sigmoid''}"
    by simp
  have m: "nat (max 2 50) = 50"
    by simp
  have "alphaBar ''exponential'' 50 = makeAlphaBarLinear (nat (max 2 50)) \<and>
        alphaBar ''linear'' 50 = makeAlphaBarLinear (nat (max 2 50)) \<and>
        alphaBar ''exponential'' 50 = alphaBar ''linear'' 50"
    using h by (rule alphaBar_unknown_is_linear)
  then have "alphaBar ''exponential'' 50 = makeAlphaBarLinear 50 \<and>
        alphaBar ''linear'' 50 = makeAlphaBarLinear 50"
    unfolding m by blast
  then show ?thesis
    using h by blast
qed

section \<open>Interpolation between schedule points\<close>

subsection \<open>Values of the binary64 rounding\<close>













subsection \<open>The interpolated value for any rounding\<close>










section \<open>The forward sample\<close>

lemma s1_value: "s1 ab = Some (sqrt (max ab 0.00000001))"
  by (simp add: s1_def js_sqrt_def max.commute)

lemma s2_value: "s2 ab = Some (sqrt (max (1 - ab) 0))"
  by (simp add: s2_def js_sqrt_def max.commute)

lemma xt_value:
  assumes "length ex = length x0" and "i < length x0"
  shows "xt ab x0 ex i = Some (spec_forward ab (x0 ! i) (ex ! i))"
  using assms by (simp add: xt_def s1_value s2_value at_index_def spec_forward_def)

lemma dots_loop_set:
  "set (dots_loop ab x0 y0 ex ey stride cnt i written dots) \<subseteq>
     set dots \<union> {(j, xt ab x0 ex j, xt ab y0 ey j) | j. j < length x0}"
proof (induction ab x0 y0 ex ey stride cnt i written dots rule: dots_loop.induct)
  case (1 ab x0 y0 ex ey stride cnt i written dots)
  let ?S = "{(j, xt ab x0 ex j, xt ab y0 ey j) | j. j < length x0}"
  let ?d = "(i, xt ab x0 ex i, xt ab y0 ey i)"
  show ?case
  proof (cases "i < length x0 \<and> written < cnt")
    case True
    then have eq: "dots_loop ab x0 y0 ex ey stride cnt i written dots =
        dots_loop ab x0 y0 ex ey stride cnt (i + stride) (written + 1) (dots @ [?d])"
      by (subst dots_loop.simps) simp
    have "set (dots_loop ab x0 y0 ex ey stride cnt (i + stride) (written + 1) (dots @ [?d]))
            \<subseteq> set (dots @ [?d]) \<union> ?S"
      using True by (rule "1.IH")
    also have "\<dots> \<subseteq> set dots \<union> ?S"
      using True by auto
    finally show ?thesis
      by (simp only: eq)
  next
    case False
    then have "dots_loop ab x0 y0 ex ey stride cnt i written dots = dots"
      by (subst dots_loop.simps) simp
    then show ?thesis by simp
  qed
qed

lemma forward_dots_set:
  "set (forward_dots ab x0 y0 ex ey visibleCount) \<subseteq>
     {(j, xt ab x0 ex j, xt ab y0 ey j) | j. j < length x0}"
proof -
  have "set (dots_loop ab x0 y0 ex ey stride cnt 0 0 []) \<subseteq>
     {(j, xt ab x0 ex j, xt ab y0 ey j) | j. j < length x0}" for stride cnt
    using dots_loop_set [of ab x0 y0 ex ey stride cnt 0 0 "[]"] by simp
  then show ?thesis
    unfolding forward_dots_def Let_def .
qed

text \<open>
  Claim C2. For vectors of one length and every \<open>ab\<close>, component \<open>i\<close> of the forward
  sample is \<open>sqrt(max(ab, 1e-8)) \<cdot> x0[i] + sqrt(max(1 - ab, 0)) \<cdot> eps[i]\<close>; it is a
  number (never \<open>NaN\<close>), for \<open>ab\<close> in \<open>[0, 1]\<close> and outside it alike. Every dot
  that the loop of the composition emits carries these values for both coordinates.
\<close>

theorem forward_sample_components:
  assumes "length ex = length x0" and "length y0 = length x0" and "length ey = length x0"
  shows "(i < length x0 \<longrightarrow> xt ab x0 ex i = Some (spec_forward ab (x0 ! i) (ex ! i))) \<and>
         (\<forall>d \<in> set (forward_dots ab x0 y0 ex ey visibleCount).
            case d of (j, a, b) \<Rightarrow>
              j < length x0 \<and> a = Some (spec_forward ab (x0 ! j) (ex ! j)) \<and>
              b = Some (spec_forward ab (y0 ! j) (ey ! j)))"
proof (intro conjI impI ballI)
  assume "i < length x0"
  with assms(1) show "xt ab x0 ex i = Some (spec_forward ab (x0 ! i) (ex ! i))"
    by (rule xt_value)
next
  fix d
  assume "d \<in> set (forward_dots ab x0 y0 ex ey visibleCount)"
  then obtain j where j: "j < length x0" and d: "d = (j, xt ab x0 ex j, xt ab y0 ey j)"
    using forward_dots_set [of ab x0 y0 ex ey visibleCount] by blast
  have "xt ab x0 ex j = Some (spec_forward ab (x0 ! j) (ex ! j))"
    using assms(1) j by (rule xt_value)
  moreover have "xt ab y0 ey j = Some (spec_forward ab (y0 ! j) (ey ! j))"
    by (rule xt_value) (use assms j in simp_all)
  ultimately show "case d of (j, a, b) \<Rightarrow>
      j < length x0 \<and> a = Some (spec_forward ab (x0 ! j) (ex ! j)) \<and>
      b = Some (spec_forward ab (y0 ! j) (ey ! j))"
    using j d by simp
qed

theorem forward_sample_components_witness:
  "length [0, 1 :: real] = length [1, 2 :: real] \<and>
   length [3, 4 :: real] = length [1, 2 :: real] \<and>
   length [1, 0 :: real] = length [1, 2 :: real] \<and> 1 < length [1, 2 :: real] \<and>
   xt (1 / 4) [1, 2] [0, 1] 1 = Some (spec_forward (1 / 4) 2 1) \<and>
   (0, xt (1 / 4) [1, 2] [0, 1] 0, xt (1 / 4) [3, 4] [1, 0] 0)
     \<in> set (forward_dots (1 / 4) [1, 2] [3, 4] [0, 1] [1, 0] 2) \<and>
   xt (1 / 4) [3, 4] [1, 0] 0 = Some (spec_forward (1 / 4) 3 1)"
proof -
  have m: "(0, xt (1 / 4) [1, 2] [0, 1] 0, xt (1 / 4) [3, 4] [1, 0] 0)
     \<in> set (forward_dots (1 / 4) [1, 2] [3, 4] [0, 1] [1, 0] 2)"
    by (simp add: forward_dots_def dots_loop.simps)
  have t: "(1 < length [1, 2 :: real] \<longrightarrow>
      xt (1 / 4) [1, 2] [0, 1] 1 = Some (spec_forward (1 / 4) ([1, 2] ! 1) ([0, 1] ! 1))) \<and>
     (\<forall>d \<in> set (forward_dots (1 / 4) [1, 2] [3, 4] [0, 1] [1, 0] 2).
        case d of (j, a, b) \<Rightarrow>
          j < length [1, 2 :: real] \<and>
          a = Some (spec_forward (1 / 4) ([1, 2] ! j) ([0, 1] ! j)) \<and>
          b = Some (spec_forward (1 / 4) ([3, 4] ! j) ([1, 0] ! j)))"
    by (rule forward_sample_components) simp_all
  from t have "xt (1 / 4) [1, 2] [0, 1] 1 = Some (spec_forward (1 / 4) 2 1)"
    by simp
  moreover from t m have "xt (1 / 4) [3, 4] [1, 0] 0 = Some (spec_forward (1 / 4) 3 1)"
    by fastforce
  ultimately show ?thesis
    using m by simp
qed

lemma sqrt_small: "sqrt (1 / 100000000) = 1 / 10000"
  by (rule real_sqrt_unique) (simp_all add: power2_eq_square)

lemma xt_one:
  assumes "length ex = length x0" and "i < length x0"
  shows "xt 1 x0 ex i = Some (x0 ! i)"
  using assms by (simp add: xt_value spec_forward_def)

lemma xt_zero:
  assumes "length ex = length x0" and "i < length x0"
  shows "xt 0 x0 ex i = Some (0.0001 * x0 ! i + ex ! i)"
  using assms by (simp add: xt_value spec_forward_def sqrt_small)

text \<open>
  Claim C4, as stated, fails: with \<open>ab = 0\<close> the factor of \<open>x0\<close> is
  \<open>sqrt(1e-8) = 1e-4\<close>, not 0, so for \<open>x0 = [10]\<close> and \<open>eps = [0]\<close> the sample is
  \<open>0.001\<close>, farther than \<open>1e-4\<close> from \<open>eps[0] = 0\<close>.
\<close>

theorem forward_sample_zero_counterexample:
  "\<not> close_to 0.0001 (xt 0 [10] [0] 0) ([0] ! 0)"
proof -
  have "xt 0 [10] [0] 0 = Some (0.0001 * [10] ! 0 + [0] ! 0)"
    by (rule xt_zero) simp_all
  then show ?thesis
    by (simp add: close_to_def)
qed

text \<open>
  Claim C4, amended. With \<open>ab = 1\<close> every component of the forward sample equals the
  component of \<open>x0\<close> (exactly, so within \<open>1e-4\<close>). With \<open>ab = 0\<close> every component is
  \<open>eps[i] + 1e-4 \<cdot> x0[i]\<close>; it is within \<open>1e-4\<close> of \<open>eps[i]\<close> exactly when
  \<open>|x0[i]| \<le> 1\<close>.
\<close>

theorem forward_sample_extremes:
  assumes "length ex = length x0" and "i < length x0"
  shows "xt 1 x0 ex i = Some (x0 ! i) \<and> close_to 0.0001 (xt 1 x0 ex i) (x0 ! i) \<and>
         xt 0 x0 ex i = Some (ex ! i + 0.0001 * x0 ! i) \<and>
         (close_to 0.0001 (xt 0 x0 ex i) (ex ! i) \<longleftrightarrow> \<bar>x0 ! i\<bar> \<le> 1)"
proof -
  have one: "xt 1 x0 ex i = Some (x0 ! i)"
    using assms by (rule xt_one)
  have zero: "xt 0 x0 ex i = Some (0.0001 * x0 ! i + ex ! i)"
    using assms by (rule xt_zero)
  have "close_to 0.0001 (xt 0 x0 ex i) (ex ! i) \<longleftrightarrow> \<bar>x0 ! i\<bar> \<le> 1"
    unfolding zero close_to_def by (simp add: abs_mult)
  then show ?thesis
    using one zero by (simp add: close_to_def)
qed

theorem forward_sample_extremes_witness:
  "length [0 :: real] = length [1 / 2 :: real] \<and> 0 < length [1 / 2 :: real] \<and>
   xt 1 [1 / 2] [0] 0 = Some (1 / 2) \<and> xt 0 [1 / 2] [0] 0 = Some (1 / 20000) \<and>
   close_to 0.0001 (xt 0 [1 / 2] [0] 0) 0"
proof -
  have "xt 1 [1 / 2] [0] 0 = Some ([1 / 2] ! 0) \<and>
        close_to 0.0001 (xt 1 [1 / 2] [0] 0) ([1 / 2] ! 0) \<and>
        xt 0 [1 / 2] [0] 0 = Some ([0] ! 0 + 0.0001 * [1 / 2] ! 0) \<and>
        (close_to 0.0001 (xt 0 [1 / 2] [0] 0) ([0] ! 0) \<longleftrightarrow> \<bar>[1 / 2 :: real] ! 0\<bar> \<le> 1)"
    by (rule forward_sample_extremes) simp_all
  then show ?thesis
    by (simp add: close_to_def)
qed

section \<open>The seeded shuffle is a permutation\<close>

declare shuffle_loop.simps [simp del]

text \<open>
  Two runs of the model: the first value of the generator seeded with 42 is
  \<open>0.6011037519\<dots>\<close>, and the shuffle of the 2 by 2 grid with that seed.
\<close>

lemma mulberry32_42: "mulberry32 42 = (645430239 / 1073741824, 1831565855)"
  by (simp add: mulberry32_def Let_def)

lemma seededShuffle_2_42: "seededShuffle 2 42 = [0, 3, 1, 2]"
  by (simp add: seededShuffle_def identity_def shuffle_loop.simps mulberry32_def Let_def
      upt_conv_Cons)

lemma mulberry32_range: "0 \<le> fst (mulberry32 s) \<and> fst (mulberry32 s) < 1"
proof -
  have "\<exists>w :: 32 word. fst (mulberry32 s) = real_of_int (uint w) / 4294967296"
    unfolding mulberry32_def Let_def fst_conv by (rule exI) (rule refl)
  then obtain w :: "32 word" where w: "fst (mulberry32 s) = real_of_int (uint w) / 4294967296"
    by blast
  define x where "x = uint w"
  have "x < 2 ^ LENGTH(32)"
    unfolding x_def by (rule unsigned_less)
  then have "x < 4294967296"
    by simp
  moreover have "0 \<le> x"
    unfolding x_def by (rule unsigned_greater_eq)
  ultimately have "0 \<le> real_of_int x / 4294967296 \<and> real_of_int x / 4294967296 < 1"
    by simp
  then show ?thesis
    unfolding w x_def .
qed

lemma floor_index_le:
  assumes "0 \<le> r" and "r < 1"
  shows "nat \<lfloor>r * real (i + 1)\<rfloor> \<le> i"
proof -
  have "r * real (i + 1) < real (i + 1)"
    using assms by simp
  then have "\<lfloor>r * real (i + 1)\<rfloor> < int (i + 1)"
    by (simp add: floor_less_iff)
  then show ?thesis by linarith
qed

lemma every_is_identity:
  "list_all (\<lambda>i. arr ! i = i) [0..<length arr] \<longleftrightarrow> arr = [0..<length arr]"
proof
  assume "list_all (\<lambda>i. arr ! i = i) [0..<length arr]"
  then have "\<forall>i<length arr. arr ! i = i"
    by (simp add: list_all_iff)
  then show "arr = [0..<length arr]"
    by (intro nth_equalityI) simp_all
next
  assume a: "arr = [0..<length arr]"
  have "arr ! i = i" if "i < length arr" for i
  proof -
    have "arr ! i = [0..<length arr] ! i"
      by (rule arg_cong [OF a, of "\<lambda>xs. xs ! i"])
    then show ?thesis using that by simp
  qed
  then show "list_all (\<lambda>i. arr ! i = i) [0..<length arr]"
    by (simp add: list_all_iff)
qed

lemma shuffle_loop_mset:
  "i < length arr \<or> i = 0 \<Longrightarrow> mset (shuffle_loop i seed arr) = mset arr"
proof (induction i seed arr rule: shuffle_loop.induct)
  case (1 i seed arr)
  show ?case
  proof (cases "i > 0")
    case False
    then show ?thesis by (subst shuffle_loop.simps) simp
  next
    case True
    obtain r seed' where m: "mulberry32 seed = (r, seed')"
      by (cases "mulberry32 seed")
    define j where "j = nat \<lfloor>r * real (i + 1)\<rfloor>"
    have r: "0 \<le> r" "r < 1"
      using mulberry32_range [of seed] m by simp_all
    have ji: "j \<le> i"
      unfolding j_def using r by (rule floor_index_le)
    have il: "i < length arr"
      using True "1.prems" by simp
    let ?arr = "arr[i := arr ! j, j := arr ! i]"
    have step: "shuffle_loop i seed arr = shuffle_loop (i - 1) seed' ?arr"
      using True m by (subst shuffle_loop.simps) (simp add: j_def Let_def)
    have "i - 1 < length arr"
      using il by linarith
    then have "i - 1 < length ?arr \<or> i - 1 = 0"
      by simp
    then have "mset (shuffle_loop (i - 1) seed' ?arr) = mset ?arr"
      by (rule "1.IH" [OF True m [symmetric] refl j_def])
    also have "\<dots> = mset arr"
      using il ji by (simp add: mset_swap)
    finally show ?thesis
      by (simp only: step)
  qed
qed

lemma seededShuffle_unfold:
  defines "loop n seed \<equiv> shuffle_loop (length (identity n) - 1) seed (identity n)"
  shows "seededShuffle n seed =
     (if loop n seed = [0..<length (loop n seed)] \<and> length (loop n seed) > 1
      then (loop n seed)[0 := loop n seed ! 1, 1 := loop n seed ! 0]
      else loop n seed)"
  unfolding seededShuffle_def Let_def loop_def every_is_identity ..

lemma shuffle_loop_identity_mset:
  "mset (shuffle_loop (length (identity n) - 1) seed (identity n)) = mset [0..<n * n]"
proof -
  have "length (identity n) - 1 < length (identity n) \<or> length (identity n) - 1 = 0"
    by linarith
  then have "mset (shuffle_loop (length (identity n) - 1) seed (identity n)) = mset (identity n)"
    by (rule shuffle_loop_mset)
  then show ?thesis
    by (simp only: identity_def)
qed

lemma seededShuffle_mset: "mset (seededShuffle n seed) = mset [0..<n * n]"
proof -
  define arr where "arr = shuffle_loop (length (identity n) - 1) seed (identity n)"
  have m: "mset arr = mset [0..<n * n]"
    unfolding arr_def by (rule shuffle_loop_identity_mset)
  have "mset (arr[0 := arr ! 1, 1 := arr ! 0]) = mset arr" if "length arr > 1"
    by (rule mset_swap) (use that in auto)
  then show ?thesis
    using m unfolding seededShuffle_unfold arr_def [symmetric] by simp
qed

lemma seededShuffle_not_identity:
  assumes "1 < n * n"
  shows "seededShuffle n seed \<noteq> identity n"
proof -
  define arr where "arr = shuffle_loop (length (identity n) - 1) seed (identity n)"
  have "mset arr = mset [0..<n * n]"
    unfolding arr_def by (rule shuffle_loop_identity_mset)
  then have "length arr = length [0..<n * n]"
    by (rule mset_eq_length)
  then have len: "length arr = n * n"
    by simp
  show ?thesis
  proof (cases "arr = [0..<length arr]")
    case True
    have "arr ! 1 = [0..<length arr] ! 1"
      by (rule arg_cong [OF True, of "\<lambda>xs. xs ! 1"])
    then have one: "arr ! 1 = 1"
      using len assms by simp
    have "seededShuffle n seed = arr[0 := arr ! 1, 1 := arr ! 0]"
      unfolding seededShuffle_unfold arr_def [symmetric] using True len assms by simp
    moreover have "0 < length arr" "1 < length arr"
      using len assms by linarith+
    ultimately have "seededShuffle n seed ! 0 = 1"
      using one by (simp add: nth_list_update)
    moreover have "identity n ! 0 = 0"
    proof -
      have "0 < n * n" using assms by linarith
      then have "[0..<n * n] ! 0 = 0 + 0" by (intro nth_upt) simp
      then show ?thesis by (simp only: identity_def add_0)
    qed
    ultimately show ?thesis
      by (metis zero_neq_one)
  next
    case False
    then have "seededShuffle n seed = arr"
      unfolding seededShuffle_unfold arr_def [symmetric] by simp
    moreover have "arr \<noteq> identity n"
      using False len by (simp add: identity_def)
    ultimately show ?thesis
      by simp
  qed
qed

text \<open>
  When the loop returns the identity and there are at least two entries, the result is
  the identity with its first two entries exchanged.
\<close>

lemma seededShuffle_identity_case:
  assumes "shuffle_loop (length (identity n) - 1) seed (identity n) = identity n"
    and "1 < n * n"
  shows "seededShuffle n seed = (identity n)[0 := 1, 1 := 0]"
proof -
  have len: "length (identity n) = n * n"
    by (simp add: identity_def)
  have id: "identity n = [0..<length (identity n)]"
    by (simp add: identity_def)
  have "identity n ! 0 = 0 + 0" "identity n ! 1 = 0 + 1"
    unfolding identity_def using assms(2) by (intro nth_upt; linarith)+
  then have nth: "identity n ! 0 = 0" "identity n ! 1 = 1"
    by simp_all
  have "1 < length (identity n)"
    using assms(2) len by linarith
  then have "seededShuffle n seed = (identity n)[0 := identity n ! 1, 1 := identity n ! 0]"
    unfolding seededShuffle_unfold assms(1) using id by simp
  then show ?thesis
    by (simp only: nth)
qed

text \<open>
  Claim C7. For every \<open>n\<close> and every seed, \<open>seededShuffle n seed\<close> is a permutation of
  \<open>0, \<dots>, n\<^sup>2 - 1\<close>: it has the elements of that range, each exactly once. When
  \<open>n\<^sup>2 > 1\<close> it is not the identity.
\<close>

theorem seededShuffle_permutation:
  "mset (seededShuffle n seed) = mset [0..<n * n] \<and>
   (\<forall>v<n * n. count_list (seededShuffle n seed) v = 1) \<and>
   (1 < n * n \<longrightarrow> seededShuffle n seed \<noteq> identity n)"
proof (intro conjI allI impI)
  show m: "mset (seededShuffle n seed) = mset [0..<n * n]"
    by (rule seededShuffle_mset)
  show "count_list (seededShuffle n seed) v = 1" if "v < n * n" for v
  proof -
    have "count_list (seededShuffle n seed) v = count (mset [0..<n * n]) v"
      by (simp only: m [symmetric] count_mset)
    also have "\<dots> = count_list [0..<n * n] v"
      by (simp only: count_mset)
    also have "\<dots> = 1"
      using that by (simp add: distinct_count_atmost_1 flip: count_mset)
    finally show ?thesis .
  qed
  show "seededShuffle n seed \<noteq> identity n" if "1 < n * n"
    using that by (rule seededShuffle_not_identity)
qed

theorem seededShuffle_permutation_witness:
  "(3::nat) < 2 * 2 \<and> (1::nat) < 2 * 2 \<and>
   mset (seededShuffle 2 42) = mset [0..<2 * 2] \<and>
   count_list (seededShuffle 2 42) 3 = 1 \<and>
   seededShuffle 2 42 \<noteq> identity 2"
proof -
  have a: "(3::nat) < 2 * 2" and b: "(1::nat) < 2 * 2"
    by simp_all
  note t = seededShuffle_permutation [of 2 42]
  from t have "mset (seededShuffle 2 42) = mset [0..<2 * 2]" ..
  moreover from t a have "count_list (seededShuffle 2 42) 3 = 1"
    by blast
  moreover from t b have "seededShuffle 2 42 \<noteq> identity 2"
    by blast
  ultimately show ?thesis
    using a b by blast
qed

section \<open>The Box-Muller sampler\<close>

lemma state_after_add:
  "state_after rng (state_after rng s n) j = state_after rng s (n + j)"
  by (simp add: state_after_def funpow_add add.commute)

lemma draw_add: "draw rng (state_after rng s n) j = draw rng s (n + j)"
  by (simp add: draw_def state_after_add)

lemma state_after_Suc: "state_after rng s (Suc k) = state_after rng (snd (rng s)) k"
  by (simp add: state_after_def funpow_Suc_right del: funpow.simps)

lemma draw_Suc: "draw rng s (Suc k) = draw rng (snd (rng s)) k"
  by (simp add: draw_def state_after_Suc)

lemma draw_nonzero_first:
  assumes "\<forall>j<k. draw rng s j = 0" and "draw rng s k \<noteq> 0"
  shows "draw_nonzero rng s = Some (draw rng s k, state_after rng s (Suc k))"
  using assms
proof (induction k arbitrary: s)
  case 0
  then have "fst (rng s) \<noteq> 0"
    by (simp add: draw_def state_after_def)
  then show ?case
    by (subst draw_nonzero.simps) (auto simp: draw_def state_after_def split: prod.split)
next
  case (Suc k)
  have z: "fst (rng s) = 0"
    using Suc.prems(1) [rule_format, of 0] by (simp add: draw_def state_after_def)
  have "\<forall>j<k. draw rng (snd (rng s)) j = 0"
    using Suc.prems(1) by (auto simp flip: draw_Suc)
  moreover have "draw rng (snd (rng s)) k \<noteq> 0"
    using Suc.prems(2) by (simp add: draw_Suc)
  ultimately have "draw_nonzero rng (snd (rng s)) =
      Some (draw rng (snd (rng s)) k, state_after rng (snd (rng s)) (Suc k))"
    by (rule Suc.IH)
  then have "draw_nonzero rng (snd (rng s)) =
      Some (draw rng s (Suc k), state_after rng s (Suc (Suc k)))"
    by (simp only: draw_Suc state_after_Suc)
  then show ?case
    using z by (subst draw_nonzero.simps) (auto split: prod.split)
qed

lemma first_nonzero:
  assumes "draw rng s a \<noteq> 0"
  shows "\<exists>k\<le>a. (\<forall>j<k. draw rng s j = 0) \<and> draw rng s k \<noteq> 0"
proof -
  define k where "k = (LEAST j. draw rng s j \<noteq> 0)"
  have "draw rng s k \<noteq> 0"
    unfolding k_def using assms by (rule LeastI)
  moreover have "k \<le> a"
    unfolding k_def using assms by (rule Least_le)
  moreover have "draw rng s j = 0" if "j < k" for j
    using that not_less_Least [of j "\<lambda>j. draw rng s j \<noteq> 0"] unfolding k_def by blast
  ultimately show ?thesis by blast
qed

lemma box_muller_value:
  assumes "0 < u" and "u < 1"
  shows "box_muller u v = Some (sqrt (- 2 * ln u) * cos (2 * pi * v))"
proof -
  have "ln u < 0"
    using assms by simp
  then have "0 \<le> - 2 * ln u"
    by simp
  then show ?thesis
    using assms(1) by (simp add: box_muller_def js_log_def js_sqrt_def)
qed

lemma randn_value:
  assumes "\<forall>j<k. draw rng s j = 0" and "draw rng s k \<noteq> 0"
    and "\<forall>j<m. draw rng s (Suc k + j) = 0" and "draw rng s (Suc k + m) \<noteq> 0"
  shows "randn rng s =
    Some (box_muller (draw rng s k) (draw rng s (Suc k + m)), state_after rng s (k + m + 2))"
proof -
  let ?s = "state_after rng s (Suc k)"
  have u: "draw_nonzero rng s = Some (draw rng s k, ?s)"
    using assms(1,2) by (rule draw_nonzero_first)
  have "\<forall>j<m. draw rng ?s j = 0"
    unfolding draw_add by (rule assms(3))
  moreover have "draw rng ?s m \<noteq> 0"
    unfolding draw_add by (rule assms(4))
  ultimately have "draw_nonzero rng ?s = Some (draw rng ?s m, state_after rng ?s (Suc m))"
    by (rule draw_nonzero_first)
  then have v: "draw_nonzero rng ?s =
      Some (draw rng s (Suc k + m), state_after rng s (k + m + 2))"
    by (simp add: draw_add state_after_add)
  show ?thesis
    unfolding randn_def u by (simp add: v)
qed

text \<open>
  Claim C8. For a generator with values in \<open>[0, 1)\<close> that returns a nonzero value at
  least twice, \<open>randn\<close> returns; there are \<open>k\<close> and \<open>m\<close> such that call \<open>k\<close> is the
  first nonzero draw \<open>u\<close>, call \<open>k + 1 + m\<close> is the first nonzero draw \<open>v\<close> after it,
  the logarithm is taken of \<open>u \<noteq> 0\<close> and is a number, and the result is
  \<open>sqrt(-2 ln u) \<cdot> cos(2 \<pi> v)\<close>.
\<close>

theorem randn_box_muller:
  assumes "\<forall>j. 0 \<le> draw rng s j \<and> draw rng s j < 1"
    and "a < b" and "draw rng s a \<noteq> 0" and "draw rng s b \<noteq> 0"
  shows "\<exists>k m. (\<forall>j<k. draw rng s j = 0) \<and> draw rng s k \<noteq> 0 \<and>
           (\<forall>j<m. draw rng s (Suc k + j) = 0) \<and> draw rng s (Suc k + m) \<noteq> 0 \<and>
           js_log (draw rng s k) = Some (ln (draw rng s k)) \<and>
           randn rng s =
             Some (Some (sqrt (- 2 * ln (draw rng s k)) * cos (2 * pi * draw rng s (Suc k + m))),
                   state_after rng s (k + m + 2))"
proof -
  obtain k where k: "k \<le> a" "\<forall>j<k. draw rng s j = 0" "draw rng s k \<noteq> 0"
    using first_nonzero [OF assms(3)] by blast
  let ?s = "state_after rng s (Suc k)"
  have "Suc k + (b - Suc k) = b"
    using k(1) assms(2) by simp
  then have "draw rng ?s (b - Suc k) = draw rng s b"
    by (simp only: draw_add)
  then have "draw rng ?s (b - Suc k) \<noteq> 0"
    using assms(4) by simp
  then obtain m where m: "\<forall>j<m. draw rng ?s j = 0" "draw rng ?s m \<noteq> 0"
    using first_nonzero [of rng ?s "b - Suc k"] by blast
  have m': "\<forall>j<m. draw rng s (Suc k + j) = 0" "draw rng s (Suc k + m) \<noteq> 0"
    using m unfolding draw_add by blast+
  have u: "0 < draw rng s k" "draw rng s k < 1"
    using assms(1) [rule_format, of k] k(3) by simp_all
  have "randn rng s =
    Some (box_muller (draw rng s k) (draw rng s (Suc k + m)), state_after rng s (k + m + 2))"
    using k(2,3) m' by (rule randn_value)
  moreover have "box_muller (draw rng s k) (draw rng s (Suc k + m)) =
      Some (sqrt (- 2 * ln (draw rng s k)) * cos (2 * pi * draw rng s (Suc k + m)))"
    using u by (rule box_muller_value)
  moreover have "js_log (draw rng s k) = Some (ln (draw rng s k))"
    using u(1) by (simp add: js_log_def)
  ultimately show ?thesis
    using k(2,3) m' by (intro exI [of _ k] exI [of _ m]) simp
qed

lemma demo_state: "state_after demo_rng 0 j = j"
  by (induction j) (simp_all add: state_after_def demo_rng_def)

lemma demo_draw: "draw demo_rng 0 j = (if j = 1 \<or> j = 3 then 1 / 2 else 0)"
  by (simp add: draw_def demo_state demo_rng_def)

theorem randn_box_muller_witness:
  "(\<forall>j. 0 \<le> draw demo_rng 0 j \<and> draw demo_rng 0 j < 1) \<and> (1::nat) < 3 \<and>
   draw demo_rng 0 1 \<noteq> 0 \<and> draw demo_rng 0 3 \<noteq> 0 \<and>
   randn demo_rng 0 = Some (Some (sqrt (- 2 * ln (1 / 2)) * cos (2 * pi * (1 / 2))), 4)"
proof -
  have r: "\<forall>j. 0 \<le> draw demo_rng 0 j \<and> draw demo_rng 0 j < 1"
    by (simp add: demo_draw)
  have a: "draw demo_rng 0 1 \<noteq> 0" and b: "draw demo_rng 0 3 \<noteq> 0"
    by (simp_all add: demo_draw)
  have ab: "(1::nat) < 3"
    by simp
  obtain k m where k: "\<forall>j<k. draw demo_rng 0 j = 0" "draw demo_rng 0 k \<noteq> 0"
    and m: "\<forall>j<m. draw demo_rng 0 (Suc k + j) = 0" "draw demo_rng 0 (Suc k + m) \<noteq> 0"
    and v: "randn demo_rng 0 =
             Some (Some (sqrt (- 2 * ln (draw demo_rng 0 k)) *
                         cos (2 * pi * draw demo_rng 0 (Suc k + m))),
                   state_after demo_rng 0 (k + m + 2))"
    using randn_box_muller [OF r ab a b] by blast
  have "\<not> 1 < k"
    using k(1) a by blast
  moreover have "k \<noteq> 0"
    using k(2) by (auto simp: demo_draw split: if_splits)
  ultimately have k1: "k = 1"
    by linarith
  have "\<not> 1 < m"
    using m(1) [rule_format, of 1] b by (auto simp: k1 numeral_3_eq_3)
  moreover have "m \<noteq> 0"
    using m(2) by (auto simp: demo_draw k1 split: if_splits)
  ultimately have m1: "m = 1"
    by linarith
  have "Suc k + m = 3" "k + m + 2 = 4"
    by (simp_all add: k1 m1)
  then have "randn demo_rng 0 =
      Some (Some (sqrt (- 2 * ln (draw demo_rng 0 1)) * cos (2 * pi * draw demo_rng 0 3)),
            state_after demo_rng 0 4)"
    using v by (simp only: k1)
  then have "randn demo_rng 0 =
      Some (Some (sqrt (- 2 * ln (1 / 2)) * cos (2 * pi * (1 / 2))), 4)"
    by (simp add: demo_draw demo_state)
  then show ?thesis
    using r ab a b by blast
qed

section \<open>The kernel density estimate\<close>

lemma fold_index_sum:
  "fold (\<lambda>i a. a + h i) [0..<n] a0 = a0 + (\<Sum>i = 0..<n. h i)" for h :: "nat \<Rightarrow> real"
  by (induction n) simp_all

lemma sum_list_map_nth:
  "sum_list (map g xs) = (\<Sum>i = 0..<length xs. g (xs ! i))" for g :: "real \<Rightarrow> real"
proof -
  have "sum_list (map g xs) = (\<Sum>i = 0..<length (map g xs). map g xs ! i)"
    by (rule sum_list_sum_nth)
  also have "\<dots> = (\<Sum>i = 0..<length xs. g (xs ! i))"
    by (rule sum.cong) simp_all
  finally show ?thesis .
qed

lemma fold_data_sum:
  "fold (\<lambda>i a. a + g (data ! i)) [0..<length data] 0 = sum_list (map g data)"
  for g :: "real \<Rightarrow> real"
  by (simp only: fold_index_sum [of "\<lambda>i. g (data ! i)"] sum_list_map_nth add_0)

lemma code_mean:
  "fold (\<lambda>i mean. mean + data ! i) [0..<length data] 0 / real (length data) = spec_mean data"
  using fold_data_sum [of "\<lambda>x. x" data] by (simp add: spec_mean_def)

lemma code_v:
  "fold (\<lambda>i v. let d = data ! i - m in v + d * d) [0..<length data] 0 =
     (\<Sum>x\<leftarrow>data. (x - m) ^ 2)" for data :: "real list"
proof -
  have "(\<lambda>i v. let d = data ! i - m in v + d * d) = (\<lambda>i v. v + (data ! i - m) ^ 2)"
    by (simp add: fun_eq_iff Let_def power2_eq_square)
  then show ?thesis
    by (simp only: fold_data_sum [of "\<lambda>x. (x - m) ^ 2" data])
qed

lemma code_s:
  "fold (\<lambda>i s. let z = (x - data ! i) / h in s + exp (- 0.5 * z * z)) [0..<length data] 0 =
     (\<Sum>s\<leftarrow>data. exp (- 0.5 * ((x - s) / h) ^ 2))" for data :: "real list"
proof -
  have "(\<lambda>i s. let z = (x - data ! i) / h in s + exp (- 0.5 * z * z)) =
        (\<lambda>i s. s + exp (- 0.5 * ((x - data ! i) / h) ^ 2))"
    by (simp add: fun_eq_iff Let_def power2_eq_square)
  then show ?thesis
    by (simp only: fold_data_sum [of "\<lambda>s. exp (- 0.5 * ((x - s) / h) ^ 2)" data])
qed

lemma code_variance:
  assumes "data \<noteq> []"
  shows "max 0.000001 ((\<Sum>x\<leftarrow>data. (x - spec_mean data) ^ 2) / max 1 (real (length data) - 1))
           = spec_variance data"
proof (cases "length data \<le> 1")
  case True
  then obtain x where x: "data = [x]"
    using assms by (cases data) auto
  show ?thesis
    by (simp add: x spec_variance_def spec_mean_def)
next
  case False
  then have "max 1 (real (length data) - 1) = real (length data) - 1"
    by simp
  then show ?thesis
    using False by (simp add: spec_variance_def)
qed

lemma code_v_unfolded:
  "fold (\<lambda>i v. v + (data ! i - m) * (data ! i - m)) [0..<length data] 0 =
     (\<Sum>x\<leftarrow>data. (x - m) ^ 2)" for data :: "real list"
  using code_v [of data m] by (simp only: Let_def)

lemma code_s_unfolded:
  "fold (\<lambda>i s. s + exp (- 0.5 * ((x - data ! i) / h) * ((x - data ! i) / h)))
        [0..<length data] 0 =
     (\<Sum>s\<leftarrow>data. exp (- 0.5 * ((x - s) / h) ^ 2))" for data :: "real list"
  using code_s [of x data h] by (simp only: Let_def)

lemma kde_is_spec:
  assumes "data \<noteq> []"
  shows "kde data grid = map (\<lambda>x. Some (spec_density data x)) grid"
proof -
  have n: "(if length data = 0 then 1 else length data) = length data"
    using assms by simp
  show ?thesis
    unfolding kde_def spec_density_def spec_bandwidth_def Let_def n
    by (simp only: assms if_False code_mean code_v_unfolded code_variance [OF assms]
          code_s_unfolded)
qed

lemma sum_list_constant:
  "\<forall>x\<in>set data. x = c \<Longrightarrow> sum_list data = real (length data) * c"
  by (induction data) (simp_all add: algebra_simps)

lemma spec_variance_all_equal:
  assumes "\<forall>x\<in>set data. x = c"
  shows "spec_variance data = 0.000001"
proof (cases "length data \<le> 1")
  case True
  then show ?thesis by (simp add: spec_variance_def)
next
  case False
  then have "data \<noteq> []"
    by auto
  then have "spec_mean data = c"
    using sum_list_constant [OF assms] by (simp add: spec_mean_def)
  moreover have "map (\<lambda>x. (x - c) ^ 2) data = map (\<lambda>x. 0) data"
    using assms by (intro map_cong) simp_all
  ultimately have "(\<Sum>x\<leftarrow>data. (x - spec_mean data) ^ 2) = (\<Sum>x\<leftarrow>data. 0)"
    by (simp only:)
  then have "(\<Sum>x\<leftarrow>data. (x - spec_mean data) ^ 2) = 0"
    by simp
  then show ?thesis
    using False by (simp add: spec_variance_def)
qed

text \<open>
  Claim C9. For a non-empty sample array the estimate has the length of the grid, and
  its value at grid point \<open>x\<close> is the density of the specification:
  \<open>(1 / (\<surd>(2\<pi>) h n)) \<Sum>\<^sub>i exp (- 0.5 ((x - sample\<^sub>i) / h)\<^sup>2)\<close> with
  \<open>h = 1.06 \<sigma> n\<^sup>-\<^sup>1\<^sup>/\<^sup>5\<close> and \<open>\<sigma>\<^sup>2\<close> the sample variance (denominator \<open>n - 1\<close>) floored
  at \<open>10\<^sup>-\<^sup>6\<close>; the floor is taken when \<open>n = 1\<close> and when all samples are equal.
\<close>

theorem kde_matches_spec:
  assumes "data \<noteq> []"
  shows "length (kde data grid) = length grid \<and>
         (\<forall>j<length grid. kde data grid ! j = Some (spec_density data (grid ! j))) \<and>
         0.000001 \<le> spec_variance data \<and>
         (length data = 1 \<or> (\<forall>x\<in>set data. x = hd data) \<longrightarrow> spec_variance data = 0.000001)"
proof (intro conjI allI impI)
  have k: "kde data grid = map (\<lambda>x. Some (spec_density data x)) grid"
    using assms by (rule kde_is_spec)
  show "length (kde data grid) = length grid"
    unfolding k by simp
  show "kde data grid ! j = Some (spec_density data (grid ! j))" if "j < length grid" for j
    unfolding k using that by simp
  show "0.000001 \<le> spec_variance data"
    by (cases "length data \<le> 1")
      (simp_all only: spec_variance_def if_True if_False max.cobounded1 order_refl)
  show "spec_variance data = 0.000001"
    if "length data = 1 \<or> (\<forall>x\<in>set data. x = hd data)"
    using that
  proof
    assume "length data = 1"
    then show ?thesis by (simp add: spec_variance_def)
  next
    assume "\<forall>x\<in>set data. x = hd data"
    then show ?thesis by (rule spec_variance_all_equal)
  qed
qed

theorem kde_matches_spec_witness:
  "[1 :: real] \<noteq> [] \<and> (0::nat) < length [0 :: real] \<and> length [1 :: real] = 1 \<and>
   length (kde [1] [0]) = length [0 :: real] \<and>
   kde [1] [0] ! 0 = Some (spec_density [1] 0) \<and>
   spec_variance [1] = 0.000001"
proof -
  have h: "[1 :: real] \<noteq> []"
    by simp
  note t = kde_matches_spec [OF h, of "[0]"]
  from t have "length (kde [1] [0]) = length [0 :: real]"
    by (rule conjunct1)
  moreover from t have "kde [1] [0] ! 0 = Some (spec_density [1] ([0] ! 0))"
    by simp
  moreover from t have "spec_variance [1] = 0.000001"
    by simp
  ultimately show ?thesis
    by simp
qed

section \<open>The product schedules\<close>

lemma accumulate_length: "length (accumulate acc out bs) = length out + length bs"
  by (induction bs arbitrary: acc out) (simp_all add: Let_def)

lemma accumulate_prefix: "i < length out \<Longrightarrow> accumulate acc out bs ! i = out ! i"
  by (induction bs arbitrary: acc out) (simp_all add: Let_def nth_append)

lemma accumulate_first:
  "bs \<noteq> [] \<Longrightarrow> accumulate acc out bs ! length out = acc * (1 - bs ! 0)"
  by (cases bs) (simp_all add: Let_def accumulate_prefix)

lemma accumulate_step:
  "Suc k < length bs \<Longrightarrow>
   accumulate acc out bs ! (length out + Suc k) =
   accumulate acc out bs ! (length out + k) * (1 - bs ! Suc k)"
proof (induction bs arbitrary: acc out k)
  case Nil
  then show ?case by simp
next
  case (Cons b bs)
  let ?acc = "acc * (1 - b)"
  let ?out = "out @ [?acc]"
  have unfold: "accumulate acc out (b # bs) = accumulate ?acc ?out bs"
    by (simp add: Let_def)
  show ?case
  proof (cases k)
    case 0
    then have "bs \<noteq> []"
      using Cons.prems by auto
    then have "accumulate ?acc ?out bs ! length ?out = ?acc * (1 - bs ! 0)"
      by (rule accumulate_first)
    moreover have "accumulate ?acc ?out bs ! length out = ?acc"
      by (simp add: accumulate_prefix)
    ultimately show ?thesis
      unfolding unfold using 0 by simp
  next
    case (Suc k')
    then have "Suc k' < length bs"
      using Cons.prems by simp
    then have "accumulate ?acc ?out bs ! (length ?out + Suc k') =
        accumulate ?acc ?out bs ! (length ?out + k') * (1 - bs ! Suc k')"
      by (rule Cons.IH)
    then show ?thesis
      unfolding unfold using Suc by simp
  qed
qed

text \<open>The schedule of a list of betas that all lie in \<open>(0, 1)\<close>.\<close>

lemma schedule_first:
  assumes "bs \<noteq> []"
  shows "accumulate 1 [] bs ! 0 = 1 - bs ! 0"
  using accumulate_first [OF assms, of 1 "[]"] by simp

lemma schedule_step:
  assumes "Suc k < length bs"
  shows "accumulate 1 [] bs ! Suc k = accumulate 1 [] bs ! k * (1 - bs ! Suc k)"
  using accumulate_step [OF assms, of 1 "[]"] by simp

lemma schedule_range:
  assumes "\<forall>b\<in>set bs. 0 < b \<and> b < 1" and "k < length bs"
  shows "0 < accumulate 1 [] bs ! k \<and> accumulate 1 [] bs ! k < 1"
  using assms(2)
proof (induction k)
  case 0
  then have "bs \<noteq> []" and "bs ! 0 \<in> set bs"
    by auto
  then show ?case
    using assms(1) by (simp add: schedule_first)
next
  case (Suc k)
  then have ih: "0 < accumulate 1 [] bs ! k" "accumulate 1 [] bs ! k < 1"
    by simp_all
  have "bs ! Suc k \<in> set bs"
    using Suc.prems by simp
  then have b: "0 < 1 - bs ! Suc k" "1 - bs ! Suc k < 1"
    using assms(1) by auto
  have "accumulate 1 [] bs ! k * (1 - bs ! Suc k) < 1 * 1"
    using ih b by (intro mult_strict_mono) simp_all
  moreover have "0 < accumulate 1 [] bs ! k * (1 - bs ! Suc k)"
    using ih b by simp
  ultimately show ?case
    using Suc.prems by (simp add: schedule_step)
qed

lemma schedule_decreasing:
  assumes "\<forall>b\<in>set bs. 0 < b \<and> b < 1" and "Suc k < length bs"
  shows "accumulate 1 [] bs ! Suc k < accumulate 1 [] bs ! k"
proof -
  have "0 < accumulate 1 [] bs ! k"
    using schedule_range [OF assms(1), of k] assms(2) by simp
  moreover have "bs ! Suc k \<in> set bs"
    using assms(2) by simp
  then have "1 - bs ! Suc k < 1"
    using assms(1) by auto
  ultimately have "accumulate 1 [] bs ! k * (1 - bs ! Suc k) < accumulate 1 [] bs ! k * 1"
    by (intro mult_strict_left_mono)
  then show ?thesis
    using assms(2) by (simp add: schedule_step)
qed

lemma clamped_beta:
  fixes lo hi x :: real
  assumes "0 \<le> x" and "lo \<le> hi"
  shows "lo \<le> min hi (lo + x) \<and> min hi (lo + x) \<le> hi"
  using assms by simp

lemma clamped_beta_strict:
  fixes lo hi x :: real
  assumes "0 < x" and "lo < hi"
  shows "lo < min hi (lo + x) \<and> min hi (lo + x) \<le> hi"
  using assms by simp

lemma ratio_nonneg: "0 \<le> real i / max 1 (real T - 1)"
  by simp

lemma betasLinear_length: "length (betasLinear T) = T"
  by (simp add: betasLinear_def)

lemma betasLinear_nth:
  assumes "i < T"
  shows "betasLinear T ! i =
           min 0.999 (0.0001 + (real i / max 1 (real T - 1)) * (0.2 - 0.0001))"
  using assms by (simp only: betasLinear_def Let_def nth_map_upt diff_zero add_0)

lemma betasLinear_bounds:
  assumes "b \<in> set (betasLinear T)"
  shows "0.0001 \<le> b \<and> b \<le> 0.999"
proof -
  obtain i where "i < T" and b: "b = betasLinear T ! i"
    using assms by (metis in_set_conv_nth betasLinear_length)
  then have b': "b = min 0.999 (0.0001 + (real i / max 1 (real T - 1)) * (0.2 - 0.0001))"
    by (simp only: betasLinear_nth)
  have "0 \<le> (real i / max 1 (real T - 1)) * (0.2 - 0.0001)"
    by (intro mult_nonneg_nonneg ratio_nonneg) simp
  then show ?thesis
    unfolding b' by (rule clamped_beta) simp
qed

lemma betasQuadratic_length: "length (betasQuadratic T) = T"
  by (simp add: betasQuadratic_def)

lemma betasQuadratic_nth:
  assumes "i < T"
  shows "betasQuadratic T ! i =
     min 0.999 (0.0001 + (real i / max 1 (real T - 1)) * (real i / max 1 (real T - 1)) *
                  (0.35 - 0.0001))"
  using assms by (simp only: betasQuadratic_def Let_def nth_map_upt diff_zero add_0)

lemma betasQuadratic_bounds:
  assumes "b \<in> set (betasQuadratic T)"
  shows "0.0001 \<le> b \<and> b \<le> 0.999"
proof -
  obtain i where "i < T" and b: "b = betasQuadratic T ! i"
    using assms by (metis in_set_conv_nth betasQuadratic_length)
  then have b': "b = min 0.999
      (0.0001 + (real i / max 1 (real T - 1)) * (real i / max 1 (real T - 1)) * (0.35 - 0.0001))"
    by (simp only: betasQuadratic_nth)
  have "0 \<le> (real i / max 1 (real T - 1)) * (real i / max 1 (real T - 1)) * (0.35 - 0.0001)"
    by (intro mult_nonneg_nonneg ratio_nonneg) simp
  then show ?thesis
    unfolding b' by (rule clamped_beta) simp
qed

lemma betasSigmoid_length: "length (betasSigmoid T) = T"
  by (simp add: betasSigmoid_def)

lemma betasSigmoid_nth:
  assumes "i < T"
  shows "betasSigmoid T ! i =
     min 0.999 (0.0001 + (1 / (1 + exp (- (real i / max 1 (real T - 1) - 0.5) * 8))) *
                  (0.3 - 0.0001))"
  using assms by (simp only: betasSigmoid_def Let_def nth_map_upt diff_zero add_0)

lemma betasSigmoid_bounds:
  assumes "b \<in> set (betasSigmoid T)"
  shows "0.0001 < b \<and> b \<le> 0.999"
proof -
  obtain i where "i < T" and b: "b = betasSigmoid T ! i"
    using assms by (metis in_set_conv_nth betasSigmoid_length)
  then have b': "b = min 0.999
      (0.0001 + (1 / (1 + exp (- (real i / max 1 (real T - 1) - 0.5) * 8))) * (0.3 - 0.0001))"
    by (simp only: betasSigmoid_nth)
  define e where "e = exp (- (real i / max 1 (real T - 1) - 0.5) * 8)"
  have "0 < e"
    unfolding e_def by (rule exp_gt_zero)
  then have "0 < 1 / (1 + e)"
    by simp
  then have "0 < (1 / (1 + e)) * (0.3 - 0.0001)"
    by (rule mult_pos_pos) simp
  then show ?thesis
    unfolding b' e_def [symmetric] by (rule clamped_beta_strict) simp
qed

lemma in_unit_interval:
  fixes b :: real
  shows "0.0001 \<le> b \<and> b \<le> 0.999 \<Longrightarrow> 0 < b \<and> b < 1"
  by simp

lemma betasLinear_unit: "\<forall>b\<in>set (betasLinear T). 0 < b \<and> b < 1"
  using betasLinear_bounds in_unit_interval by blast

lemma betasQuadratic_unit: "\<forall>b\<in>set (betasQuadratic T). 0 < b \<and> b < 1"
  using betasQuadratic_bounds in_unit_interval by blast

lemma betasSigmoid_unit: "\<forall>b\<in>set (betasSigmoid T). 0 < b \<and> b < 1"
proof
  fix b assume "b \<in> set (betasSigmoid T)"
  then have "0.0001 < b \<and> b \<le> 0.999"
    by (rule betasSigmoid_bounds)
  then show "0 < b \<and> b < 1"
    by simp
qed

lemma makeAlphaBarLinear_first:
  assumes "0 < T"
  shows "makeAlphaBarLinear T ! 0 = 0.9999"
proof -
  have "betasLinear T \<noteq> []"
    using assms betasLinear_length [of T] by auto
  then have "makeAlphaBarLinear T ! 0 = 1 - betasLinear T ! 0"
    unfolding makeAlphaBarLinear_def Let_def by (rule schedule_first)
  also have "betasLinear T ! 0 = 0.0001"
    using assms by (simp add: betasLinear_nth)
  finally show ?thesis by simp
qed

lemma makeAlphaBarQuadratic_first:
  assumes "0 < T"
  shows "makeAlphaBarQuadratic T ! 0 = 0.9999"
proof -
  have "betasQuadratic T \<noteq> []"
    using assms betasQuadratic_length [of T] by auto
  then have "makeAlphaBarQuadratic T ! 0 = 1 - betasQuadratic T ! 0"
    unfolding makeAlphaBarQuadratic_def Let_def by (rule schedule_first)
  also have "betasQuadratic T ! 0 = 0.0001"
    using assms by (simp add: betasQuadratic_nth)
  finally show ?thesis by simp
qed

lemma divide_one_plus_less:
  fixes a e :: real
  assumes "0 < a" and "0 < e"
  shows "a / (1 + e) < a"
proof -
  have "a * 1 < a * (1 + e)"
    using assms by (intro mult_strict_left_mono) simp_all
  moreover have "0 < 1 + e"
    using assms(2) by simp
  ultimately show ?thesis
    by (simp add: pos_divide_less_eq)
qed

lemma sigmoid_beta0: "betasSigmoid T ! 0 = 0.0001 + 0.2999 / (1 + exp 4)" if "0 < T"
proof -
  have "0.2999 / (1 + exp 4) < (0.2999 :: real)"
    by (rule divide_one_plus_less) simp_all
  then have "min 0.999 (0.0001 + 0.2999 / (1 + exp 4)) = 0.0001 + 0.2999 / (1 + exp (4::real))"
    by simp
  moreover have "betasSigmoid T ! 0 = min 0.999 (0.0001 + 0.2999 / (1 + exp 4))"
  proof -
    have e: "- (real 0 / max 1 (real T - 1) - 0.5) * 8 = (4::real)"
      by simp
    have c: "(1 / (1 + exp 4)) * (0.3 - 0.0001) = 0.2999 / (1 + exp (4::real))"
      by simp
    show ?thesis
      using betasSigmoid_nth [OF that] by (simp only: e c)
  qed
  ultimately show ?thesis
    by (simp only:)
qed

lemma makeAlphaBarSigmoid_first:
  assumes "0 < T"
  shows "makeAlphaBarSigmoid T ! 0 = 1 - (0.0001 + 0.2999 / (1 + exp 4))"
proof -
  have "betasSigmoid T \<noteq> []"
    using assms betasSigmoid_length [of T] by auto
  then have "makeAlphaBarSigmoid T ! 0 = 1 - betasSigmoid T ! 0"
    unfolding makeAlphaBarSigmoid_def Let_def by (rule schedule_first)
  then show ?thesis
    using assms by (simp only: sigmoid_beta0)
qed

lemma makeAlphaBarSigmoid_first_less:
  assumes "0 < T"
  shows "makeAlphaBarSigmoid T ! 0 < 0.9999"
proof -
  have "0 < 0.2999 / (1 + exp (4::real))"
    by (simp add: add_pos_pos)
  then show ?thesis
    unfolding makeAlphaBarSigmoid_first [OF assms] by simp
qed

lemma makeAlphaBarLinear_decreasing:
  assumes "Suc t < T"
  shows "makeAlphaBarLinear T ! Suc t < makeAlphaBarLinear T ! t"
  unfolding makeAlphaBarLinear_def Let_def
  using betasLinear_unit by (rule schedule_decreasing) (simp add: betasLinear_length assms)

lemma makeAlphaBarQuadratic_decreasing:
  assumes "Suc t < T"
  shows "makeAlphaBarQuadratic T ! Suc t < makeAlphaBarQuadratic T ! t"
  unfolding makeAlphaBarQuadratic_def Let_def
  using betasQuadratic_unit by (rule schedule_decreasing) (simp add: betasQuadratic_length assms)

lemma makeAlphaBarSigmoid_decreasing:
  assumes "Suc t < T"
  shows "makeAlphaBarSigmoid T ! Suc t < makeAlphaBarSigmoid T ! t"
  unfolding makeAlphaBarSigmoid_def Let_def
  using betasSigmoid_unit by (rule schedule_decreasing) (simp add: betasSigmoid_length assms)

lemma ratio_le_one:
  assumes "i < T"
  shows "real i / max 1 (real T - 1) \<le> 1"
proof -
  have "real i \<le> real T - 1"
    using assms by linarith
  then have "real i \<le> max 1 (real T - 1)"
    by simp
  moreover have "0 < max 1 (real T - 1)"
    by simp
  ultimately show ?thesis
    by (simp only: divide_le_eq_1_pos)
qed

lemma clamped_beta_upper:
  fixes lo hi top x :: real
  assumes "lo + x \<le> top"
  shows "min hi (lo + x) \<le> top"
  using assms by simp

lemma betasLinear_upper:
  assumes "b \<in> set (betasLinear T)"
  shows "b \<le> 0.35"
proof -
  obtain i where i: "i < T" and b: "b = betasLinear T ! i"
    using assms by (metis in_set_conv_nth betasLinear_length)
  then have b': "b = min 0.999 (0.0001 + (real i / max 1 (real T - 1)) * (0.2 - 0.0001))"
    by (simp only: betasLinear_nth)
  have "(real i / max 1 (real T - 1)) * (0.2 - 0.0001) \<le> 1 * (0.2 - 0.0001)"
    using ratio_le_one [OF i] by (intro mult_right_mono) simp_all
  then have "0.0001 + (real i / max 1 (real T - 1)) * (0.2 - 0.0001) \<le> 0.35"
    by simp
  then show ?thesis
    unfolding b' by (rule clamped_beta_upper)
qed

lemma betasQuadratic_upper:
  assumes "b \<in> set (betasQuadratic T)"
  shows "b \<le> 0.35"
proof -
  obtain i where i: "i < T" and b: "b = betasQuadratic T ! i"
    using assms by (metis in_set_conv_nth betasQuadratic_length)
  define r where "r = real i / max 1 (real T - 1)"
  have b': "b = min 0.999 (0.0001 + r * r * (0.35 - 0.0001))"
    unfolding r_def using i b by (simp only: betasQuadratic_nth)
  have r: "0 \<le> r" "r \<le> 1"
    unfolding r_def using ratio_nonneg ratio_le_one [OF i] by simp_all
  then have "r * r \<le> 1 * 1"
    by (intro mult_mono) simp_all
  then have "r * r * (0.35 - 0.0001) \<le> 1 * (0.35 - 0.0001)"
    by (intro mult_right_mono) simp_all
  then have "0.0001 + r * r * (0.35 - 0.0001) \<le> 0.35"
    by simp
  then show ?thesis
    unfolding b' by (rule clamped_beta_upper)
qed

lemma betasSigmoid_upper:
  assumes "b \<in> set (betasSigmoid T)"
  shows "b \<le> 0.35"
proof -
  obtain i where i: "i < T" and b: "b = betasSigmoid T ! i"
    using assms by (metis in_set_conv_nth betasSigmoid_length)
  define e where "e = exp (- (real i / max 1 (real T - 1) - 0.5) * 8)"
  have b': "b = min 0.999 (0.0001 + (1 / (1 + e)) * (0.3 - 0.0001))"
    unfolding e_def using i b by (simp only: betasSigmoid_nth)
  have "0 < e"
    unfolding e_def by (rule exp_gt_zero)
  then have "1 / (1 + e) \<le> 1"
    by simp
  then have "(1 / (1 + e)) * (0.3 - 0.0001) \<le> 1 * (0.3 - 0.0001)"
    by (intro mult_right_mono) simp_all
  then have "0.0001 + (1 / (1 + e)) * (0.3 - 0.0001) \<le> 0.35"
    by simp
  then show ?thesis
    unfolding b' by (rule clamped_beta_upper)
qed

lemma schedule_lower:
  assumes "\<forall>b\<in>set bs. 0 < b \<and> b \<le> \<beta>" and "\<beta> < 1" and "k < length bs"
  shows "(1 - \<beta>) ^ Suc k \<le> accumulate 1 [] bs ! k"
  using assms(3)
proof (induction k)
  case 0
  then have "bs \<noteq> []" and "bs ! 0 \<in> set bs"
    by auto
  then show ?case
    using assms(1) by (simp add: schedule_first)
next
  case (Suc k)
  have "bs ! Suc k \<in> set bs"
    using Suc.prems by simp
  then have b: "1 - \<beta> \<le> 1 - bs ! Suc k"
    using assms(1) by auto
  have ih: "(1 - \<beta>) ^ Suc k \<le> accumulate 1 [] bs ! k"
    using Suc by simp
  have "0 \<le> (1 - \<beta>) ^ Suc k"
    using assms(2) by simp
  then have nonneg: "0 \<le> accumulate 1 [] bs ! k"
    using ih by linarith
  have "(1 - \<beta>) ^ Suc k * (1 - \<beta>) \<le> accumulate 1 [] bs ! k * (1 - bs ! Suc k)"
    using ih b nonneg assms(2) by (intro mult_mono) simp_all
  then show ?case
    using Suc.prems by (simp add: schedule_step mult.commute)
qed

lemma power_400_bound: "(1 / 10) ^ 80 < (0.65 :: real) ^ 400"
proof -
  have "(1 / 10 :: real) < 0.65 ^ 5"
    by (simp add: power_divide)
  then have "(1 / 10 :: real) ^ 80 < (0.65 ^ 5) ^ 80"
    by (intro power_strict_mono) simp_all
  then show ?thesis
    by (simp only: power_mult [symmetric]) simp
qed

lemma schedule_far_from_underflow:
  assumes "\<forall>b\<in>set bs. 0 < b \<and> b \<le> 0.35" and "length bs \<le> 400" and "k < length bs"
  shows "(1 / 10) ^ 80 < accumulate 1 [] bs ! k"
proof -
  have "(1 / 10) ^ 80 < (0.65 :: real) ^ 400"
    by (rule power_400_bound)
  also have "\<dots> \<le> 0.65 ^ Suc k"
    using assms(2,3) by (intro power_decreasing) simp_all
  also have "\<dots> = (1 - 0.35) ^ Suc k"
    by simp
  also have "\<dots> \<le> accumulate 1 [] bs ! k"
    using assms(1) _ assms(3) by (rule schedule_lower) simp
  finally show ?thesis .
qed

text \<open>
  In binary64 the running product cannot fall below the smallest positive number
  \<open>2\<^sup>-\<^sup>1\<^sup>0\<^sup>7\<^sup>4\<close> (printed \<open>5e-324\<close>): multiplied by a factor in \<open>(1/2, 1]\<close>, as every
  \<open>1 - \<beta>\<close> of the three schedules is, it rounds back to itself. A schedule whose exact
  product gets that small is therefore not strictly decreasing in the program; with at
  most 400 steps the product stays above \<open>10\<^sup>-\<^sup>8\<^sup>0\<close>.
\<close>

lemma rne_upper_half:
  assumes "1 / 2 < a" and "a \<le> 1"
  shows "rne a = 1"
proof (cases "a = 1")
  case True
  then show ?thesis by (simp add: rne_def)
next
  case False
  then have "\<lfloor>a\<rfloor> = 0"
    using assms by (intro floor_unique) simp_all
  then show ?thesis
    using assms(1) by (simp add: rne_def Let_def)
qed

lemma fl_smallest_sticks:
  assumes "1 / 2 < a" and "a \<le> 1"
  shows "fl (2 powr (- 1074) * a) = 2 powr (- 1074)"
proof -
  let ?m = "2 powr (- 1074) :: real"
  have m: "0 < ?m"
    by simp
  have x: "0 < ?m * a" "?m * a \<le> ?m"
    using assms by (simp_all add: mult_le_cancel_left1)
  have "log 2 \<bar>?m * a\<bar> = log 2 (?m * a)"
    using x(1) by simp
  also have "\<dots> \<le> log 2 ?m"
    using x m by (subst log_le_cancel_iff) simp_all
  also have "\<dots> = - 1074"
    by simp
  finally have "log 2 \<bar>?m * a\<bar> < of_int (- 1022)"
    by simp
  then have "\<lfloor>log 2 \<bar>?m * a\<bar>\<rfloor> < - 1022"
    by (simp only: floor_less_iff)
  then have e: "max (- 1022) \<lfloor>log 2 \<bar>?m * a\<bar>\<rfloor> = - 1022"
    by simp
  have u: "(2::real) powr (of_int (- 1022) - 52) = ?m"
    by simp
  have ne: "?m * a \<noteq> 0"
    using x(1) by (rule less_imp_neq [symmetric])
  have "fl (?m * a) = of_int (rne (?m * a / ?m)) * ?m"
    unfolding fl_def Let_def e u by (simp only: ne if_False)
  also have "?m * a / ?m = a"
    by simp
  also have "rne a = 1"
    using assms by (rule rne_upper_half)
  finally show ?thesis
    by simp
qed

text \<open>
  Claim C10, as stated, fails for the sigmoid schedule: its first beta is
  \<open>1e-4 + 0.2999 / (1 + e\<^sup>4)\<close>, not \<open>1e-4\<close>, so the first element is not \<open>0.9999\<close>.
\<close>

theorem sigmoid_first_counterexample: "makeAlphaBarSigmoid 2 ! 0 \<noteq> 0.9999"
  using makeAlphaBarSigmoid_first_less [of 2] by simp

text \<open>
  Claim C10, amended. For \<open>2 \<le> T \<le> 400\<close> (400 is the largest step count of the
  step control), every beta of the linear, quadratic and sigmoid schedules is at least
  \<open>1e-4\<close>; the three schedules are strictly decreasing and every value is above
  \<open>10\<^sup>-\<^sup>8\<^sup>0\<close>. The first element is \<open>1 - \<beta>\<^sub>0\<close>: \<open>0.9999\<close> for linear and
  quadratic, and \<open>1 - (1e-4 + 0.2999 / (1 + e\<^sup>4))\<close>, which is less than \<open>0.9999\<close>, for
  sigmoid.
\<close>

theorem product_schedules_decreasing:
  assumes "2 \<le> T" and "T \<le> 400"
  shows "(\<forall>b \<in> set (betasLinear T) \<union> set (betasQuadratic T) \<union> set (betasSigmoid T).
            0.0001 \<le> b) \<and>
         (Suc t < T \<longrightarrow>
            makeAlphaBarLinear T ! Suc t < makeAlphaBarLinear T ! t \<and>
            makeAlphaBarQuadratic T ! Suc t < makeAlphaBarQuadratic T ! t \<and>
            makeAlphaBarSigmoid T ! Suc t < makeAlphaBarSigmoid T ! t) \<and>
         (t < T \<longrightarrow>
            (1 / 10) ^ 80 < makeAlphaBarLinear T ! t \<and>
            (1 / 10) ^ 80 < makeAlphaBarQuadratic T ! t \<and>
            (1 / 10) ^ 80 < makeAlphaBarSigmoid T ! t) \<and>
         makeAlphaBarLinear T ! 0 = 0.9999 \<and>
         makeAlphaBarQuadratic T ! 0 = 0.9999 \<and>
         makeAlphaBarSigmoid T ! 0 = 1 - (0.0001 + 0.2999 / (1 + exp 4)) \<and>
         makeAlphaBarSigmoid T ! 0 < 0.9999"
proof (intro conjI ballI impI)
  have T: "0 < T"
    using assms by simp
  show "0.0001 \<le> b"
    if "b \<in> set (betasLinear T) \<union> set (betasQuadratic T) \<union> set (betasSigmoid T)" for b
    using that betasLinear_bounds [of b T] betasQuadratic_bounds [of b T]
      betasSigmoid_bounds [of b T] by auto
  show "makeAlphaBarLinear T ! 0 = 0.9999"
    using T by (rule makeAlphaBarLinear_first)
  show "makeAlphaBarQuadratic T ! 0 = 0.9999"
    using T by (rule makeAlphaBarQuadratic_first)
  show "makeAlphaBarSigmoid T ! 0 = 1 - (0.0001 + 0.2999 / (1 + exp 4))"
    using T by (rule makeAlphaBarSigmoid_first)
  show "makeAlphaBarSigmoid T ! 0 < 0.9999"
    using T by (rule makeAlphaBarSigmoid_first_less)
next
  assume "Suc t < T"
  then show "makeAlphaBarLinear T ! Suc t < makeAlphaBarLinear T ! t"
    by (rule makeAlphaBarLinear_decreasing)
next
  assume "Suc t < T"
  then show "makeAlphaBarQuadratic T ! Suc t < makeAlphaBarQuadratic T ! t"
    by (rule makeAlphaBarQuadratic_decreasing)
next
  assume "Suc t < T"
  then show "makeAlphaBarSigmoid T ! Suc t < makeAlphaBarSigmoid T ! t"
    by (rule makeAlphaBarSigmoid_decreasing)
next
  assume t: "t < T"
  have "\<forall>b\<in>set (betasLinear T). 0 < b \<and> b \<le> 0.35"
    using betasLinear_unit betasLinear_upper by blast
  then show "(1 / 10) ^ 80 < makeAlphaBarLinear T ! t"
    unfolding makeAlphaBarLinear_def Let_def
    by (rule schedule_far_from_underflow) (simp_all add: betasLinear_length assms t)
next
  assume t: "t < T"
  have "\<forall>b\<in>set (betasQuadratic T). 0 < b \<and> b \<le> 0.35"
    using betasQuadratic_unit betasQuadratic_upper by blast
  then show "(1 / 10) ^ 80 < makeAlphaBarQuadratic T ! t"
    unfolding makeAlphaBarQuadratic_def Let_def
    by (rule schedule_far_from_underflow) (simp_all add: betasQuadratic_length assms t)
next
  assume t: "t < T"
  have "\<forall>b\<in>set (betasSigmoid T). 0 < b \<and> b \<le> 0.35"
    using betasSigmoid_unit betasSigmoid_upper by blast
  then show "(1 / 10) ^ 80 < makeAlphaBarSigmoid T ! t"
    unfolding makeAlphaBarSigmoid_def Let_def
    by (rule schedule_far_from_underflow) (simp_all add: betasSigmoid_length assms t)
qed

theorem product_schedules_decreasing_witness:
  "(2::nat) \<le> 2 \<and> (2::nat) \<le> 400 \<and> Suc 0 < 2 \<and>
   betasLinear 2 ! 1 \<in> set (betasLinear 2) \<and>
   0.0001 \<le> betasLinear 2 ! 1 \<and>
   makeAlphaBarLinear 2 ! Suc 0 < makeAlphaBarLinear 2 ! 0 \<and>
   makeAlphaBarQuadratic 2 ! Suc 0 < makeAlphaBarQuadratic 2 ! 0 \<and>
   makeAlphaBarSigmoid 2 ! Suc 0 < makeAlphaBarSigmoid 2 ! 0 \<and>
   (1 / 10) ^ 80 < makeAlphaBarSigmoid 2 ! 0 \<and>
   makeAlphaBarLinear 2 ! 0 = 0.9999"
proof -
  have h: "(2::nat) \<le> 2" and h': "(2::nat) \<le> 400" and s: "Suc 0 < 2" and z: "(0::nat) < 2"
    by simp_all
  have m: "betasLinear 2 ! 1 \<in> set (betasLinear 2)"
    by (rule nth_mem) (simp add: betasLinear_length)
  note t = product_schedules_decreasing [OF h h', of 0]
  from t m have "0.0001 \<le> betasLinear 2 ! 1"
    by blast
  moreover from t s have "makeAlphaBarLinear 2 ! Suc 0 < makeAlphaBarLinear 2 ! 0"
    "makeAlphaBarQuadratic 2 ! Suc 0 < makeAlphaBarQuadratic 2 ! 0"
    "makeAlphaBarSigmoid 2 ! Suc 0 < makeAlphaBarSigmoid 2 ! 0"
    by blast+
  moreover from t z have "(1 / 10) ^ 80 < makeAlphaBarSigmoid 2 ! 0"
    by blast
  moreover from t have "makeAlphaBarLinear 2 ! 0 = 0.9999"
    by blast
  ultimately show ?thesis
    using h h' s m by blast
qed

section \<open>The cosine schedule and the schedule of every shape\<close>

lemma makeAlphaBarCosine_length: "length (makeAlphaBarCosine T) = T"
  by (simp add: makeAlphaBarCosine_def Let_def)

lemma makeAlphaBarCosine_nth:
  assumes "i < T"
  shows "makeAlphaBarCosine T ! i =
           (cos (cosine_angle T (real i))) ^ 2 / (cos (cosine_angle T 0)) ^ 2"
  using assms
  by (simp only: makeAlphaBarCosine_def Let_def nth_map_upt diff_zero add_0 cosine_angle_def)

lemma cosine_angle_mono:
  assumes "0 < T" and "x < y"
  shows "cosine_angle T x < cosine_angle T y"
proof -
  have "x / real T < y / real T"
    using assms by (simp add: divide_strict_right_mono)
  then have "(x / real T + 0.008) / (1 + 0.008) < (y / real T + 0.008) / (1 + 0.008)"
    by (simp add: divide_strict_right_mono)
  then show ?thesis
    unfolding cosine_angle_def by (rule mult_strict_right_mono) simp
qed

lemma cosine_angle_zero_pos: "0 < cosine_angle T 0"
  by (simp add: cosine_angle_def)

lemma cosine_angle_less:
  assumes "i < T"
  shows "cosine_angle T (real i) < pi / 2"
proof -
  have "real i / real T < 1"
    using assms by simp
  then have "real i / real T + 0.008 < 1 + 0.008"
    by linarith
  then have "(real i / real T + 0.008) / (1 + 0.008) < 1"
    by (subst divide_less_eq_1_pos) simp_all
  then have "((real i / real T + 0.008) / (1 + 0.008)) * (pi / 2) < 1 * (pi / 2)"
    by (rule mult_strict_right_mono) simp
  then show ?thesis
    by (simp add: cosine_angle_def)
qed

lemma cosine_angle_pos:
  assumes "i < T"
  shows "0 < cosine_angle T (real i)"
proof (cases "i = 0")
  case True
  then show ?thesis by (simp add: cosine_angle_zero_pos)
next
  case False
  then have "cosine_angle T 0 < cosine_angle T (real i)"
    using assms by (intro cosine_angle_mono) simp_all
  then show ?thesis
    using cosine_angle_zero_pos [of T] by linarith
qed

lemma cos_angle_pos:
  assumes "i < T"
  shows "0 < cos (cosine_angle T (real i))"
  using cosine_angle_pos [OF assms] cosine_angle_less [OF assms]
  by (intro cos_gt_zero) simp_all

lemma cos_angle_decreasing:
  assumes "i < j" and "j < T"
  shows "cos (cosine_angle T (real j)) < cos (cosine_angle T (real i))"
proof (rule cos_monotone_0_pi)
  show "0 \<le> cosine_angle T (real i)"
    using cosine_angle_pos [of i T] assms by simp
  show "cosine_angle T (real i) < cosine_angle T (real j)"
    using assms by (intro cosine_angle_mono) simp_all
  show "cosine_angle T (real j) \<le> pi"
    using cosine_angle_less [OF assms(2)] pi_gt_zero by linarith
qed

lemma makeAlphaBarCosine_first:
  assumes "0 < T"
  shows "makeAlphaBarCosine T ! 0 = 1"
proof -
  have "0 < cos (cosine_angle T (real 0))"
    using assms by (rule cos_angle_pos)
  then have "cos (cosine_angle T 0) ^ 2 \<noteq> 0"
    by simp
  then show ?thesis
    using assms by (simp add: makeAlphaBarCosine_nth)
qed

lemma makeAlphaBarCosine_decreasing:
  assumes "Suc t < T"
  shows "makeAlphaBarCosine T ! Suc t < makeAlphaBarCosine T ! t"
proof -
  have T: "0 < T" "t < T"
    using assms by simp_all
  have c0: "0 < cos (cosine_angle T 0) ^ 2"
    using cos_angle_pos [OF T(1)] by simp
  have "0 < cos (cosine_angle T (real (Suc t)))"
    using assms by (rule cos_angle_pos)
  moreover have "cos (cosine_angle T (real (Suc t))) < cos (cosine_angle T (real t))"
    using assms by (intro cos_angle_decreasing) simp_all
  ultimately have "cos (cosine_angle T (real (Suc t))) ^ 2 < cos (cosine_angle T (real t)) ^ 2"
    by (intro power_strict_mono) simp_all
  then have "cos (cosine_angle T (real (Suc t))) ^ 2 / cos (cosine_angle T 0) ^ 2
           < cos (cosine_angle T (real t)) ^ 2 / cos (cosine_angle T 0) ^ 2"
    using c0 by (rule divide_strict_right_mono)
  then show ?thesis
    by (simp only: makeAlphaBarCosine_nth [OF assms] makeAlphaBarCosine_nth [OF T(2)])
qed

lemma makeAlphaBarCosine_range:
  assumes "t < T"
  shows "0 < makeAlphaBarCosine T ! t \<and> makeAlphaBarCosine T ! t \<le> 1"
  using assms
proof (induction t)
  case 0
  then show ?case by (simp add: makeAlphaBarCosine_first)
next
  case (Suc t)
  have T: "0 < T"
    using Suc.prems by simp
  have "makeAlphaBarCosine T ! Suc t < makeAlphaBarCosine T ! t"
    using Suc.prems by (rule makeAlphaBarCosine_decreasing)
  moreover have "makeAlphaBarCosine T ! t \<le> 1"
    using Suc by simp
  moreover have "0 < makeAlphaBarCosine T ! Suc t"
  proof -
    have "0 < cos (cosine_angle T (real (Suc t)))" "0 < cos (cosine_angle T (real 0))"
      using Suc.prems T by (intro cos_angle_pos, simp)+
    then show ?thesis
      unfolding makeAlphaBarCosine_nth [OF Suc.prems] by simp
  qed
  ultimately show ?case
    by simp
qed

lemma product_schedule_ok:
  assumes "\<forall>b\<in>set bs. 0 < b \<and> b < 1"
  shows "schedule_ok (accumulate 1 [] bs) (length bs)"
  unfolding schedule_ok_def
proof (intro conjI allI impI)
  show "length (accumulate 1 [] bs) = length bs"
    by (simp add: accumulate_length)
  show "0 < accumulate 1 [] bs ! t" if "t < length bs" for t
    using schedule_range [OF assms that] by simp
  show "accumulate 1 [] bs ! t \<le> 1" if "t < length bs" for t
    using schedule_range [OF assms that] by simp
  show "accumulate 1 [] bs ! Suc t \<le> accumulate 1 [] bs ! t" if "Suc t < length bs" for t
    using schedule_decreasing [OF assms that] by simp
qed

lemma makeAlphaBarLinear_ok: "schedule_ok (makeAlphaBarLinear T) T"
  using product_schedule_ok [OF betasLinear_unit, of T]
  by (simp only: makeAlphaBarLinear_def Let_def betasLinear_length)

lemma makeAlphaBarQuadratic_ok: "schedule_ok (makeAlphaBarQuadratic T) T"
  using product_schedule_ok [OF betasQuadratic_unit, of T]
  by (simp only: makeAlphaBarQuadratic_def Let_def betasQuadratic_length)

lemma makeAlphaBarSigmoid_ok: "schedule_ok (makeAlphaBarSigmoid T) T"
  using product_schedule_ok [OF betasSigmoid_unit, of T]
  by (simp only: makeAlphaBarSigmoid_def Let_def betasSigmoid_length)

lemma makeAlphaBarCosine_ok: "schedule_ok (makeAlphaBarCosine T) T"
  unfolding schedule_ok_def
proof (intro conjI allI impI)
  show "length (makeAlphaBarCosine T) = T"
    by (rule makeAlphaBarCosine_length)
  show "0 < makeAlphaBarCosine T ! t" if "t < T" for t
    using makeAlphaBarCosine_range [OF that] by simp
  show "makeAlphaBarCosine T ! t \<le> 1" if "t < T" for t
    using makeAlphaBarCosine_range [OF that] by simp
  show "makeAlphaBarCosine T ! Suc t \<le> makeAlphaBarCosine T ! t" if "Suc t < T" for t
    using makeAlphaBarCosine_decreasing [OF that] by simp
qed

lemma alphaBar_linear: "alphaBar ''linear'' steps = makeAlphaBarLinear (nat (max 2 steps))"
  by (simp add: alphaBar_def ALL_SCHEDULERS_def)

lemma alphaBar_cosine: "alphaBar ''cosine'' steps = makeAlphaBarCosine (nat (max 2 steps))"
  by (simp add: alphaBar_def ALL_SCHEDULERS_def)

lemma alphaBar_quadratic:
  "alphaBar ''quadratic'' steps = makeAlphaBarQuadratic (nat (max 2 steps))"
  by (simp add: alphaBar_def ALL_SCHEDULERS_def)

lemma alphaBar_sigmoid: "alphaBar ''sigmoid'' steps = makeAlphaBarSigmoid (nat (max 2 steps))"
  by (simp add: alphaBar_def ALL_SCHEDULERS_def)

text \<open>
  Claim C1. For every integer \<open>T \<ge> 2\<close> and each of the shapes \<open>linear\<close>, \<open>cosine\<close>,
  \<open>quadratic\<close>, \<open>sigmoid\<close>, the selected schedule has exactly \<open>T\<close> values, every value
  lies in \<open>(0, 1]\<close>, and the sequence is non-increasing (exactly, so also within the
  tolerance \<open>1e-9\<close>).
\<close>

theorem build_schedule_ok:
  assumes "2 \<le> T" and "shape \<in> {''linear'', ''cosine'', ''quadratic'', ''sigmoid''}"
  shows "schedule_ok (alphaBar shape T) (nat T)"
proof -
  have T: "nat (max 2 T) = nat T"
    using assms(1) by simp
  consider "shape = ''linear''" | "shape = ''cosine''" | "shape = ''quadratic''"
    | "shape = ''sigmoid''"
    using assms(2) by blast
  then show ?thesis
  proof cases
    case 1
    show ?thesis
      unfolding 1 alphaBar_linear T by (rule makeAlphaBarLinear_ok)
  next
    case 2
    show ?thesis
      unfolding 2 alphaBar_cosine T by (rule makeAlphaBarCosine_ok)
  next
    case 3
    show ?thesis
      unfolding 3 alphaBar_quadratic T by (rule makeAlphaBarQuadratic_ok)
  next
    case 4
    show ?thesis
      unfolding 4 alphaBar_sigmoid T by (rule makeAlphaBarSigmoid_ok)
  qed
qed

theorem build_schedule_ok_witness:
  "(2::int) \<le> 2 \<and> ''cosine'' \<in> {''linear'', ''cosine'', ''quadratic'', ''sigmoid''} \<and>
   length (alphaBar ''cosine'' 2) = 2 \<and>
   0 < alphaBar ''cosine'' 2 ! 1 \<and> alphaBar ''cosine'' 2 ! 1 \<le> 1 \<and>
   alphaBar ''cosine'' 2 ! Suc 0 \<le> alphaBar ''cosine'' 2 ! 0"
proof -
  have h: "(2::int) \<le> 2"
    by simp
  have m: "''cosine'' \<in> {''linear'', ''cosine'', ''quadratic'', ''sigmoid''}"
    by simp
  have "schedule_ok (alphaBar ''cosine'' 2) (nat 2)"
    using h m by (rule build_schedule_ok)
  then have "length (alphaBar ''cosine'' 2) = 2"
    and "\<forall>t<2. 0 < alphaBar ''cosine'' 2 ! t \<and> alphaBar ''cosine'' 2 ! t \<le> 1"
    and "\<forall>t. Suc t < 2 \<longrightarrow> alphaBar ''cosine'' 2 ! Suc t \<le> alphaBar ''cosine'' 2 ! t"
    by (simp_all add: schedule_ok_def)
  then have "length (alphaBar ''cosine'' 2) = 2 \<and>
     0 < alphaBar ''cosine'' 2 ! 1 \<and> alphaBar ''cosine'' 2 ! 1 \<le> 1 \<and>
     alphaBar ''cosine'' 2 ! Suc 0 \<le> alphaBar ''cosine'' 2 ! 0"
    by simp
  then show ?thesis
    using h m by blast
qed

lemma schedule_decay:
  assumes unit: "\<forall>b\<in>set bs. 0 < b \<and> b < 1"
    and large: "\<forall>j. m < j \<and> j \<le> k \<longrightarrow> \<beta> \<le> bs ! j"
    and "\<beta> \<le> 1" and "m \<le> k" and "k < length bs"
  shows "accumulate 1 [] bs ! k \<le> accumulate 1 [] bs ! m * (1 - \<beta>) ^ (k - m)"
  using \<open>m \<le> k\<close> large \<open>k < length bs\<close>
proof (induction k rule: dec_induct)
  case base
  then show ?case by simp
next
  case (step n)
  let ?r = "accumulate 1 [] bs"
  have ih: "?r ! n \<le> ?r ! m * (1 - \<beta>) ^ (n - m)"
    using step by simp
  have pos: "0 < ?r ! n"
    using schedule_range [OF unit, of n] step.prems by simp
  have "\<beta> \<le> bs ! Suc n"
    using step.prems(1) step.hyps by simp
  then have "?r ! n * (1 - bs ! Suc n) \<le> ?r ! n * (1 - \<beta>)"
    using pos by (intro mult_left_mono) simp_all
  also have "\<dots> \<le> (?r ! m * (1 - \<beta>) ^ (n - m)) * (1 - \<beta>)"
    using ih \<open>\<beta> \<le> 1\<close> by (intro mult_right_mono) simp_all
  also have "\<dots> = ?r ! m * (1 - \<beta>) ^ (Suc n - m)"
    using step.hyps by (simp add: Suc_diff_le)
  finally show ?case
    using step.prems by (simp add: schedule_step)
qed

lemma betasLinear_100_late:
  assumes "49 < j" and "j \<le> 99"
  shows "0.1 \<le> betasLinear 100 ! j"
proof -
  have "betasLinear 100 ! j =
      min 0.999 (0.0001 + (real j / max 1 (real 100 - 1)) * (0.2 - 0.0001))"
    using assms by (intro betasLinear_nth) simp
  moreover have "50 \<le> real j"
    using assms by simp
  then have "0.1 \<le> 0.0001 + (real j / 99) * (0.1999 :: real)"
    by (simp add: field_simps)
  ultimately show ?thesis
    by simp
qed

lemma power_small: "(0.9 :: real) ^ 50 < 0.01"
  by (simp add: power_divide)

lemma makeAlphaBarLinear_100_last: "makeAlphaBarLinear 100 ! 99 < 0.01"
proof -
  let ?r = "accumulate 1 [] (betasLinear 100)"
  have r49: "0 < ?r ! 49 \<and> ?r ! 49 < 1"
    using betasLinear_unit by (rule schedule_range) (simp add: betasLinear_length)
  have "?r ! 99 \<le> ?r ! 49 * (1 - 0.1) ^ (99 - 49)"
    using betasLinear_unit
  proof (rule schedule_decay)
    show "\<forall>j. 49 < j \<and> j \<le> 99 \<longrightarrow> 0.1 \<le> betasLinear 100 ! j"
      using betasLinear_100_late by blast
  qed (simp_all add: betasLinear_length)
  also have "\<dots> = ?r ! 49 * 0.9 ^ 50"
    by simp
  also have "\<dots> < 1 * 0.9 ^ 50"
    using r49 by (intro mult_strict_right_mono) simp_all
  also have "\<dots> < 0.01"
    using power_small by simp
  finally have "?r ! 99 < 0.01" .
  then show ?thesis
    by (simp only: makeAlphaBarLinear_def Let_def)
qed

text \<open>
  Claim C5. The first element of the cosine schedule for \<open>T = 100\<close> is 1 (so within
  \<open>1e-6\<close> of 1), and element 99 of the linear schedule for \<open>T = 100\<close> is less than
  \<open>0.01\<close>.
\<close>

theorem schedules_100:
  "\<bar>makeAlphaBarCosine 100 ! 0 - 1\<bar> \<le> 0.000001 \<and>
   makeAlphaBarLinear 100 ! 99 < 0.01 \<and>
   alphaBar ''cosine'' 100 = makeAlphaBarCosine 100 \<and>
   alphaBar ''linear'' 100 = makeAlphaBarLinear 100"
proof (intro conjI)
  have "makeAlphaBarCosine 100 ! 0 = 1"
    by (rule makeAlphaBarCosine_first) simp
  then show "\<bar>makeAlphaBarCosine 100 ! 0 - 1\<bar> \<le> 0.000001"
    by simp
  show "makeAlphaBarLinear 100 ! 99 < 0.01"
    by (rule makeAlphaBarLinear_100_last)
  show "alphaBar ''cosine'' 100 = makeAlphaBarCosine 100"
    by (simp add: alphaBar_cosine)
  show "alphaBar ''linear'' 100 = makeAlphaBarLinear 100"
    by (simp add: alphaBar_linear)
qed

end
